theory Spec2Isabelle
  imports Complex_Main "HOL-Library.Multiset" "HOL-Library.AList" "HOL-Library.Word"
begin

unbundle bit_operations_syntax

section \<open>Resmoke test suite generator: the data model\<close>

text \<open>
  The embedding follows \<^verbatim>\<open>buildscripts/generate_resmoke_suites.py\<close>.
  Durations are Python floats in the program; here they are real numbers, so every
  statement about durations is about exact arithmetic. Run counts are Python integers.
  A raised exception is the left summand of a result.
\<close>

datatype error = ZeroDivisionError | IndexError | HTTPError int | OtherError string

text \<open>Class \<^verbatim>\<open>Suite\<close>: the test files of a sub-suite and their accumulated runtime.\<close>

record Suite =
  tests :: "string list"
  total_runtime :: real

definition Suite_init :: Suite where
  "Suite_init = \<lparr>tests = [], total_runtime = 0\<rparr>"

definition add_test :: "Suite \<Rightarrow> string \<Rightarrow> real \<Rightarrow> Suite" where
  "add_test s test_file runtime =
     s\<lparr>tests := tests s @ [test_file], total_runtime := total_runtime s + runtime\<rparr>"

definition get_runtime :: "Suite \<Rightarrow> real" where
  "get_runtime s = total_runtime s"

definition get_test_count :: "Suite \<Rightarrow> nat" where
  "get_test_count s = length (tests s)"

text \<open>
  Python truth value of the optional \<^verbatim>\<open>max_suites\<close>: \<^verbatim>\<open>None\<close> and \<^verbatim>\<open>0\<close> are false,
  every other integer (a negative one too) is true.
\<close>

fun py_truthy :: "int option \<Rightarrow> bool" where
  "py_truthy None = False"
| "py_truthy (Some k) = (k \<noteq> 0)"

text \<open>The comparison \<^verbatim>\<open>len(suites) >= max_suites\<close>, evaluated only for an integer.\<close>

fun len_ge :: "'a list \<Rightarrow> int option \<Rightarrow> bool" where
  "len_ge xs None = False"
| "len_ge xs (Some k) = (int (length xs) \<ge> k)"

text \<open>
  The position that \<^verbatim>\<open>xs[i]\<close> reads: \<open>i\<close> itself from the front, \<open>length xs + i\<close> for a
  negative \<open>i\<close> no smaller than \<open>- length xs\<close>, and IndexError for every other \<open>i\<close>.
\<close>

definition py_index :: "'a list \<Rightarrow> int \<Rightarrow> error + nat" where
  "py_index xs i =
     (if 0 \<le> i \<and> i < int (length xs) then Inr (nat i)
      else if i < 0 \<and> - int (length xs) \<le> i then Inr (nat (int (length xs) + i))
      else Inl IndexError)"

section \<open>Packing tests into suites\<close>

text \<open>
  \<^verbatim>\<open>divide_remaining_tests_among_suites\<close>: the loop over the remaining tests, with the
  running \<^verbatim>\<open>suite_idx\<close>. The suites of the list are distinct objects, so the in-place
  \<^verbatim>\<open>add_test\<close> is an update of the list at \<^verbatim>\<open>suite_idx\<close>; \<^verbatim>\<open>suites[suite_idx]\<close> on an
  empty list raises IndexError.
\<close>

fun divide_remaining_loop ::
  "(string \<times> real) list \<Rightarrow> Suite list \<Rightarrow> nat \<Rightarrow> error + Suite list" where
  "divide_remaining_loop [] suites suite_idx = Inr suites"
| "divide_remaining_loop ((test_file, runtime) # rest) suites suite_idx =
     (if suite_idx < length suites then
        (let suites' = suites[suite_idx := add_test (suites ! suite_idx) test_file runtime];
             suite_idx' = suite_idx + 1
         in divide_remaining_loop rest suites'
              (if suite_idx' \<ge> length suites' then 0 else suite_idx'))
      else Inl IndexError)"

definition divide_remaining_tests_among_suites ::
  "(string \<times> real) list \<Rightarrow> Suite list \<Rightarrow> error + Suite list" where
  "divide_remaining_tests_among_suites remaining_tests_runtimes suites =
     divide_remaining_loop remaining_tests_runtimes suites 0"

text \<open>
  The \<^verbatim>\<open>for idx, (test_file, runtime) in enumerate(tests_runtimes)\<close> loop of
  \<^verbatim>\<open>divide_tests_into_suites\<close>. The state is \<^verbatim>\<open>suites\<close>, \<^verbatim>\<open>current_suite\<close> and
  \<^verbatim>\<open>last_test_processed\<close>; the \<^verbatim>\<open>break\<close> returns without looking at the rest.
\<close>

fun divide_loop ::
  "real \<Rightarrow> int option \<Rightarrow> nat \<Rightarrow> (string \<times> real) list \<Rightarrow> Suite list \<Rightarrow> Suite \<Rightarrow> nat
     \<Rightarrow> Suite list \<times> Suite \<times> nat" where
  "divide_loop max_time_seconds max_suites idx [] suites current_suite last_test_processed =
     (suites, current_suite, last_test_processed)"
| "divide_loop max_time_seconds max_suites idx ((test_file, runtime) # rest) suites current_suite
       last_test_processed =
     (if get_runtime current_suite + runtime > max_time_seconds then
        (if get_test_count current_suite > 0 then
           (let suites' = suites @ [current_suite]
            in if py_truthy max_suites \<and> len_ge suites' max_suites
               then (suites', Suite_init, idx)
               else divide_loop max_time_seconds max_suites (idx + 1) rest suites'
                      (add_test Suite_init test_file runtime) last_test_processed)
         else divide_loop max_time_seconds max_suites (idx + 1) rest suites
                (add_test current_suite test_file runtime) last_test_processed)
      else divide_loop max_time_seconds max_suites (idx + 1) rest suites
             (add_test current_suite test_file runtime) last_test_processed)"

definition divide_tests_into_suites ::
  "(string \<times> real) list \<Rightarrow> real \<Rightarrow> int option \<Rightarrow> error + Suite list" where
  "divide_tests_into_suites tests_runtimes max_time_seconds max_suites =
     (case divide_loop max_time_seconds max_suites 0 tests_runtimes [] Suite_init
             (length tests_runtimes) of
        (suites0, current_suite, last_test_processed) \<Rightarrow>
          (let suites = (if get_test_count current_suite > 0
                         then suites0 @ [current_suite] else suites0)
           in if py_truthy max_suites \<and> last_test_processed < length tests_runtimes
              then divide_remaining_tests_among_suites
                     (drop last_test_processed tests_runtimes) suites
              else Inr suites))"

text \<open>
  The segments of the input that the bins hold: \<open>bin_of seg\<close> is the suite obtained from an
  empty one by adding the tests of \<open>seg\<close> in order, and \<open>pack_trace\<close> follows the loop of
  \<open>divide_loop\<close> on segments instead of suites. They are used to state what a bin contains
  with the duration of each of its tests, which a \<open>Suite\<close> does not keep.
\<close>

definition bin_of :: "(string \<times> real) list \<Rightarrow> Suite" where
  "bin_of seg = \<lparr>tests = map fst seg, total_runtime = sum_list (map snd seg)\<rparr>"

fun pack_trace ::
  "real \<Rightarrow> int option \<Rightarrow> nat \<Rightarrow> (string \<times> real) list \<Rightarrow> (string \<times> real) list list
     \<Rightarrow> (string \<times> real) list \<Rightarrow> nat
     \<Rightarrow> (string \<times> real) list list \<times> (string \<times> real) list \<times> nat" where
  "pack_trace mx ms idx [] segs cseg lst = (segs, cseg, lst)"
| "pack_trace mx ms idx ((t, r) # rest) segs cseg lst =
     (if sum_list (map snd cseg) + r > mx then
        (if cseg \<noteq> [] then
           (if py_truthy ms \<and> len_ge (segs @ [cseg]) ms
            then (segs @ [cseg], [], idx)
            else pack_trace mx ms (idx + 1) rest (segs @ [cseg]) [(t, r)] lst)
         else pack_trace mx ms (idx + 1) rest segs (cseg @ [(t, r)]) lst)
      else pack_trace mx ms (idx + 1) rest segs (cseg @ [(t, r)]) lst)"

text \<open>
  The budget rule on a segment: every test but the first was added to a bin whose runtime
  plus the test's duration was within \<open>mx\<close>.
\<close>

definition later_tests_fit :: "real \<Rightarrow> (string \<times> real) list \<Rightarrow> bool" where
  "later_tests_fit mx seg =
     (\<forall>j\<in>{1..<length seg}. sum_list (map snd (take j seg)) + snd (seg ! j) \<le> mx)"

section \<open>The fallback partition\<close>

text \<open>
  \<^verbatim>\<open>Main\<close> keeps the parsed options; of them the model has the ones the partition reads.
  \<^verbatim>\<open>list_tests\<close> asks \<^verbatim>\<open>suitesconfig\<close>, which is outside this file: its answer is the field
  \<open>suite_tests\<close>.
\<close>

record Main =
  fallback_num_sub_suites :: int
  max_sub_suites :: "int option"
  execution_time_minutes :: int
  suite_tests :: "string list"
  test_list :: "string list"

definition list_tests :: "Main \<Rightarrow> string list" where
  "list_tests self = suite_tests self"

text \<open>
  The loop of \<^verbatim>\<open>calculate_fallback_suites\<close>. \<^verbatim>\<open>idx % num_suites\<close> raises for
  \<^verbatim>\<open>num_suites = 0\<close>; Python's \<^verbatim>\<open>%\<close> takes the sign of the divisor, as \<open>mod\<close> on \<open>int\<close> does.
\<close>

fun fallback_loop :: "int \<Rightarrow> nat \<Rightarrow> string list \<Rightarrow> Suite list \<Rightarrow> error + Suite list" where
  "fallback_loop num_suites idx [] suites = Inr suites"
| "fallback_loop num_suites idx (test_file # rest) suites =
     (if num_suites = 0 then Inl ZeroDivisionError
      else (case py_index suites (int idx mod num_suites) of
              Inl e \<Rightarrow> Inl e
            | Inr j \<Rightarrow> fallback_loop num_suites (idx + 1) rest
                        (suites[j := add_test (suites ! j) test_file 0])))"

definition partition_fallback :: "string list \<Rightarrow> int \<Rightarrow> error + Suite list" where
  "partition_fallback all_tests num_suites =
     fallback_loop num_suites 0 all_tests (replicate (nat num_suites) Suite_init)"

definition calculate_fallback_suites :: "Main \<Rightarrow> error + Suite list" where
  "calculate_fallback_suites self =
     partition_fallback (list_tests self) (fallback_num_sub_suites self)"

section \<open>Test statistics\<close>

text \<open>
  A document of the Evergreen \<^verbatim>\<open>test_stats/\<close> endpoint, with the three keys \<^verbatim>\<open>_add_stats\<close>
  reads.
\<close>

record evg_doc =
  doc_test_file :: string
  doc_avg_duration_pass :: real
  doc_num_pass :: int

text \<open>
  The helpers of \<^verbatim>\<open>buildscripts.util.testname\<close> are called by \<^verbatim>\<open>TestStats\<close> and not
  defined in this file: the model takes them as a parameter.
\<close>

record testname_ops =
  normalize_test_file :: "string \<Rightarrow> string"
  is_resmoke_hook :: "string \<Rightarrow> bool"
  split_test_hook_name :: "string \<Rightarrow> string \<times> string"
  get_short_name_from_test_file :: "string \<Rightarrow> string"

text \<open>
  The value of a runtime dictionary, \<^verbatim>\<open>{"num_run": X, "duration": Y}\<close>. The dictionaries
  are \<^verbatim>\<open>defaultdict(dict)\<close>: a missing key reads as the empty dictionary, which is false,
  and a present key always has both entries. The entries of a dictionary are kept as an
  association list in the order in which the keys were inserted: \<open>AList.update\<close> replaces the
  value of a present key in place and appends a new key at the end. This is the history of
  the dictionary, not the order in which Python lists its items; that order is
  \<open>dict_items\<close> below.
\<close>

record runtime_info =
  duration :: real
  num_run :: int

type_synonym runtime_dict = "(string \<times> runtime_info) list"

record TestStats =
  runtime_by_test :: runtime_dict
  hook_runtime_by_test :: runtime_dict

text \<open>\<^verbatim>\<open>_average\<close>: the float division raises ZeroDivisionError for a zero divisor.\<close>

definition average :: "real \<Rightarrow> int \<Rightarrow> real \<Rightarrow> int \<Rightarrow> error + real" where
  "average value_a num_a value_b num_b =
     (if num_a + num_b = 0 then Inl ZeroDivisionError
      else Inr ((value_a * of_int num_a + value_b * of_int num_b) / of_int (num_a + num_b)))"

text \<open>\<^verbatim>\<open>_add_runtime_info\<close>\<close>

definition add_runtime_info ::
  "runtime_dict \<Rightarrow> string \<Rightarrow> real \<Rightarrow> int \<Rightarrow> error + runtime_dict" where
  "add_runtime_info runtime_dict test_name new_duration new_num_run =
     (case map_of runtime_dict test_name of
        None \<Rightarrow>
          Inr (AList.update test_name \<lparr>duration = new_duration, num_run = new_num_run\<rparr>
                 runtime_dict)
      | Some info \<Rightarrow>
          (case average (duration info) (num_run info) new_duration new_num_run of
             Inl e \<Rightarrow> Inl e
           | Inr avg \<Rightarrow>
               Inr (AList.update test_name
                      \<lparr>duration = avg, num_run = num_run info + new_num_run\<rparr> runtime_dict)))"

text \<open>\<^verbatim>\<open>_add_test_stats\<close>, \<^verbatim>\<open>_add_test_hook_stats\<close> and \<^verbatim>\<open>_add_stats\<close>\<close>

definition add_test_stats :: "TestStats \<Rightarrow> string \<Rightarrow> real \<Rightarrow> int \<Rightarrow> error + TestStats" where
  "add_test_stats self test_file new_duration new_num_run =
     (case add_runtime_info (runtime_by_test self) test_file new_duration new_num_run of
        Inl e \<Rightarrow> Inl e
      | Inr d \<Rightarrow> Inr (self\<lparr>runtime_by_test := d\<rparr>))"

definition add_test_hook_stats ::
  "testname_ops \<Rightarrow> TestStats \<Rightarrow> string \<Rightarrow> real \<Rightarrow> int \<Rightarrow> error + TestStats" where
  "add_test_hook_stats ops self test_file new_duration new_num_run =
     (let test_name = fst (split_test_hook_name ops test_file)
      in case add_runtime_info (hook_runtime_by_test self) test_name new_duration new_num_run of
           Inl e \<Rightarrow> Inl e
         | Inr d \<Rightarrow> Inr (self\<lparr>hook_runtime_by_test := d\<rparr>))"

definition add_stats :: "testname_ops \<Rightarrow> TestStats \<Rightarrow> evg_doc \<Rightarrow> error + TestStats" where
  "add_stats ops self test_stats =
     (let test_file = normalize_test_file ops (doc_test_file test_stats);
          new_duration = doc_avg_duration_pass test_stats;
          new_num_run = doc_num_pass test_stats;
          is_hook = is_resmoke_hook ops test_file
      in if is_hook then add_test_hook_stats ops self test_file new_duration new_num_run
         else add_test_stats self test_file new_duration new_num_run)"

text \<open>The loop of \<^verbatim>\<open>__init__\<close> over the documents; an exception ends it.\<close>

fun add_all_stats :: "testname_ops \<Rightarrow> TestStats \<Rightarrow> evg_doc list \<Rightarrow> error + TestStats" where
  "add_all_stats ops self [] = Inr self"
| "add_all_stats ops self (doc # docs) =
     (case add_stats ops self doc of
        Inl e \<Rightarrow> Inl e
      | Inr self' \<Rightarrow> add_all_stats ops self' docs)"

definition TestStats_init :: "testname_ops \<Rightarrow> evg_doc list \<Rightarrow> error + TestStats" where
  "TestStats_init ops evg_test_stats_results =
     add_all_stats ops \<lparr>runtime_by_test = [], hook_runtime_by_test = []\<rparr>
       evg_test_stats_results"

text \<open>
  The order of \<^verbatim>\<open>runtime_dict.items()\<close>. The program is written for Python 2
  (\<^verbatim>\<open>from __future__ import absolute_import\<close>), where a dictionary lists its items by the
  slots of its hash table: the order is fixed by the keys and the order of their
  insertion, and the language does not say what it is. The model takes it as the parameter
  \<open>items_order\<close>: for the keys in insertion order it gives every key a rank, and the items
  are listed by increasing rank, those of equal rank in insertion order. Every order of
  the items is that of some ranks. \<open>insertion_order\<close> is the order of a Python 3.7
  dictionary.
\<close>

type_synonym dict_order = "string list \<Rightarrow> string \<Rightarrow> nat"

definition dict_items :: "dict_order \<Rightarrow> runtime_dict \<Rightarrow> (string \<times> runtime_info) list" where
  "dict_items items_order d = sort_key (\<lambda>p. items_order (map fst d) (fst p)) d"

definition insertion_order :: dict_order where
  "insertion_order keys k = 0"

text \<open>
  The order of a small CPython 2.7 dictionary. The hash of a string
  (\<^verbatim>\<open>string_hash\<close> of \<^verbatim>\<open>Objects/stringobject.c\<close>, a 64-bit \<^verbatim>\<open>long\<close>, hash randomisation off as
  it is by default; a unicode string of ASCII characters has the same hash) starts from
  the first character shifted by 7 bits, takes
  \<^verbatim>\<open>x = (1000003*x) ^ c\<close> for every character, then \<^verbatim>\<open>x ^= len\<close>, and \<^verbatim>\<open>-1\<close> becomes \<^verbatim>\<open>-2\<close>. A
  dictionary of at most five keys has eight slots; a key goes to the slot of the low
  three bits of its hash when that slot is free, and the items are listed by slot. So
  \<open>py27_small_dict_order\<close> is the order of the items for at most five keys whose hashes
  differ in their low three bits.
\<close>

definition py27_string_hash :: "string \<Rightarrow> 64 word" where
  "py27_string_hash s =
     (case s of
        [] \<Rightarrow> 0
      | c # _ \<Rightarrow>
          (let x = fold (\<lambda>ch x. (1000003 * x) XOR of_nat (of_char ch))
                     s (push_bit 7 (of_nat (of_char c)))
                   XOR of_nat (length s)
           in if x = - 1 then - 2 else x))"

definition py27_small_dict_order :: dict_order where
  "py27_small_dict_order keys k = unat (py27_string_hash k AND 7)"

text \<open>
  \<^verbatim>\<open>get_tests_runtimes\<close>. \<open>unsorted_tests_runtimes\<close> is the list \<^verbatim>\<open>tests\<close> built by the loop
  over the items of the dictionary, in the order of \<open>dict_items\<close>.
  \<^verbatim>\<open>sorted(tests, key=lambda x: x[1], reverse=True)\<close> is a stable sort for the reversed
  order: \<open>sort_key\<close> (a stable insertion sort) on the negated duration. Reading a missing key
  of the hook dictionary leaves an empty entry there, which reads as a missing one; the
  model leaves the dictionary as it is.
\<close>

definition unsorted_tests_runtimes ::
  "testname_ops \<Rightarrow> dict_order \<Rightarrow> TestStats \<Rightarrow> (string \<times> real) list" where
  "unsorted_tests_runtimes ops items_order self =
     map (\<lambda>(test_file, info).
            (test_file,
             (case map_of (hook_runtime_by_test self)
                     (get_short_name_from_test_file ops test_file) of
                None \<Rightarrow> duration info
              | Some hook_runtime_info \<Rightarrow> duration info + duration hook_runtime_info)))
         (dict_items items_order (runtime_by_test self))"

definition get_tests_runtimes ::
  "testname_ops \<Rightarrow> dict_order \<Rightarrow> TestStats \<Rightarrow> (string \<times> real) list" where
  "get_tests_runtimes ops items_order self =
     sort_key (\<lambda>x. - snd x) (unsorted_tests_runtimes ops items_order self)"

text \<open>
  The test files in the order of the documents: the normalised names that are not hook
  names, as \<^verbatim>\<open>_add_stats\<close> tells them apart. The order of first occurrence in a list \<open>xs\<close> is
  \<open>rev (remdups (rev xs))\<close>, since \<open>remdups\<close> keeps the last occurrence of each element.
\<close>

definition ingested_test_files :: "testname_ops \<Rightarrow> evg_doc list \<Rightarrow> string list" where
  "ingested_test_files ops docs =
     filter (\<lambda>f. \<not> is_resmoke_hook ops f)
       (map (\<lambda>doc. normalize_test_file ops (doc_test_file doc)) docs)"

section \<open>Choosing the partition\<close>

text \<open>
  \<^verbatim>\<open>calculate_suites_from_evg_stats\<close> also stores the test files in \<^verbatim>\<open>self.test_list\<close>:
  the result is the suites and the updated object.
\<close>

definition calculate_suites_from_evg_stats ::
  "testname_ops \<Rightarrow> dict_order \<Rightarrow> Main \<Rightarrow> evg_doc list \<Rightarrow> int
     \<Rightarrow> error + (Suite list \<times> Main)" where
  "calculate_suites_from_evg_stats ops items_order self data execution_time_secs =
     (case TestStats_init ops data of
        Inl e \<Rightarrow> Inl e
      | Inr test_stats \<Rightarrow>
          (let tests_runtimes = get_tests_runtimes ops items_order test_stats;
               self' = self\<lparr>test_list := map fst tests_runtimes\<rparr>
           in case divide_tests_into_suites tests_runtimes (of_int execution_time_secs)
                     (max_sub_suites self) of
                Inl e \<Rightarrow> Inl e
              | Inr suites \<Rightarrow> Inr (suites, self')))"

definition SERVICE_UNAVAILABLE :: int where
  "SERVICE_UNAVAILABLE = 503"

text \<open>
  \<^verbatim>\<open>calculate_suites\<close>. The call of the Evergreen API in \<^verbatim>\<open>get_evg_stats\<close> is outside the
  program: its outcome, the documents or the exception it raised, is the argument
  \<open>fetched\<close>, with \<open>HTTPError c\<close> for a \<^verbatim>\<open>requests.HTTPError\<close> of status code \<open>c\<close>. The
  \<^verbatim>\<open>try\<close> block holds the fetch and the computation from the statistics; the handler
  looks at what either of them raised.
\<close>

definition calculate_suites ::
  "testname_ops \<Rightarrow> dict_order \<Rightarrow> Main \<Rightarrow> error + evg_doc list
     \<Rightarrow> error + (Suite list \<times> Main)" where
  "calculate_suites ops items_order self fetched =
     (let attempt =
            (case fetched of
               Inl e \<Rightarrow> Inl e
             | Inr evg_stats \<Rightarrow>
                 calculate_suites_from_evg_stats ops items_order self evg_stats
                   (execution_time_minutes self * 60))
      in case attempt of
           Inl (HTTPError status_code) \<Rightarrow>
             (if status_code = SERVICE_UNAVAILABLE
              then (case calculate_fallback_suites self of
                      Inl e \<Rightarrow> Inl e
                    | Inr suites \<Rightarrow> Inr (suites, self))
              else Inl (HTTPError status_code))
         | Inl e \<Rightarrow> Inl e
         | Inr result \<Rightarrow> Inr result)"

text \<open>
  Modelled from the spec: \<^verbatim>\<open>buildscripts/util/testname.py\<close> is missing from the sources, so
  this is one instance of its helpers, used only to run the model on concrete inputs. From
  the specification: a hook's name is the name of its test plus a suffix, and the short
  name of a test file is the identifier without its directory decoration. Chosen here: the
  suffix starts at a colon, the short name also drops the file extension, and
  normalisation leaves an identifier as it is.
\<close>

definition sample_split :: "string \<Rightarrow> string \<times> string" where
  "sample_split s = (takeWhile (\<lambda>c. c \<noteq> CHR '':'') s, drop 1 (dropWhile (\<lambda>c. c \<noteq> CHR '':'') s))"

definition sample_short_name :: "string \<Rightarrow> string" where
  "sample_short_name s =
     (let base = rev (takeWhile (\<lambda>c. c \<noteq> CHR ''/'') (rev s))
      in if CHR ''.'' \<in> set base
         then rev (drop 1 (dropWhile (\<lambda>c. c \<noteq> CHR ''.'') (rev base)))
         else base)"

definition sample_testname :: testname_ops where
  "sample_testname =
     \<lparr>normalize_test_file = (\<lambda>s. s),
      is_resmoke_hook = (\<lambda>s. CHR '':'' \<in> set s),
      split_test_hook_name = sample_split,
      get_short_name_from_test_file = sample_short_name\<rparr>"

section \<open>Properties of the packing loop\<close>

lemma add_test_bin_of: "add_test (bin_of seg) t r = bin_of (seg @ [(t, r)])"
  by (simp add: add_test_def bin_of_def)

lemma Suite_init_bin_of: "Suite_init = bin_of []"
  by (simp add: Suite_init_def bin_of_def)

lemma count_bin_of: "get_test_count (bin_of seg) = length seg"
  by (simp add: get_test_count_def bin_of_def)

lemma runtime_bin_of: "get_runtime (bin_of seg) = sum_list (map snd seg)"
  by (simp add: get_runtime_def bin_of_def)

lemma len_ge_map: "len_ge (map f xs) ms = len_ge xs ms"
  by (cases ms) simp_all

lemma divide_loop_trace:
  "divide_loop mx ms idx ts (map bin_of segs) (bin_of cseg) l =
     (case pack_trace mx ms idx ts segs cseg l of (a, b, c) \<Rightarrow> (map bin_of a, bin_of b, c))"
proof (induction ts arbitrary: idx segs cseg)
  case Nil
  show ?case by simp
next
  case (Cons p ts)
  obtain t r where p: "p = (t, r)" by (cases p)
  have m: "map bin_of segs @ [bin_of cseg] = map bin_of (segs @ [cseg])" by simp
  show ?case
    unfolding p
    by (simp only: divide_loop.simps pack_trace.simps Let_def count_bin_of runtime_bin_of
          add_test_bin_of m len_ge_map Cons.IH Suite_init_bin_of[symmetric] 
          add_test_bin_of[of "[]", simplified Suite_init_bin_of[symmetric]])
       (simp add: Suite_init_bin_of add_test_bin_of Cons.IH)
qed

lemma pack_trace_concat:
  assumes "pack_trace mx ms idx ts segs cseg l = (a, b, c)" and "idx + length ts \<le> l"
  shows "concat a @ b = concat segs @ cseg @ take (c - idx) ts \<and> idx \<le> c \<and>
         (c = l \<or> (c < idx + length ts \<and> py_truthy ms \<and> a \<noteq> [] \<and> b = []))"
  using assms
proof (induction ts arbitrary: idx segs cseg)
  case Nil
  then show ?case by simp
next
  case (Cons p ts)
  obtain t r where p: "p = (t, r)" by (cases p)
  show ?case
  proof (cases "sum_list (map snd cseg) + r > mx \<and> cseg \<noteq> [] \<and> py_truthy ms \<and> len_ge (segs @ [cseg]) ms")
    case True
    with Cons.prems show ?thesis by (auto simp: p)
  next
    case False
    have "\<exists>segs' cseg'. pack_trace mx ms idx (p # ts) segs cseg l = pack_trace mx ms (Suc idx) ts segs' cseg' l
      \<and> concat segs' @ cseg' = concat segs @ cseg @ [(t, r)]"
    proof (cases "sum_list (map snd cseg) + r > mx \<and> cseg \<noteq> []")
      case True
      with False have "pack_trace mx ms idx (p # ts) segs cseg l = pack_trace mx ms (Suc idx) ts (segs @ [cseg]) [(t, r)] l"
        by (auto simp: p)
      then show ?thesis by (intro exI[of _ "segs @ [cseg]"] exI[of _ "[(t, r)]"]) simp
    next
      case F2: False
      then have "pack_trace mx ms idx (p # ts) segs cseg l = pack_trace mx ms (Suc idx) ts segs (cseg @ [(t, r)]) l"
        by (auto simp: p)
      then show ?thesis by (intro exI[of _ segs] exI[of _ "cseg @ [(t, r)]"]) simp
    qed
    then obtain segs' cseg' where
      step: "pack_trace mx ms idx (p # ts) segs cseg l = pack_trace mx ms (Suc idx) ts segs' cseg' l"
      and cc: "concat segs' @ cseg' = concat segs @ cseg @ [(t, r)]"
      by blast
    from Cons.IH[of "Suc idx" segs' cseg'] Cons.prems step
    have ih: "concat a @ b = concat segs' @ cseg' @ take (c - Suc idx) ts \<and> Suc idx \<le> c \<and>
         (c = l \<or> (c < Suc idx + length ts \<and> py_truthy ms \<and> a \<noteq> [] \<and> b = []))"
      by simp
    then have "c - idx = Suc (c - Suc idx)" by linarith
    then have "take (c - idx) (p # ts) = p # take (c - Suc idx) ts"
      by simp
    with ih cc show ?thesis
      by (auto simp: p)
  qed
qed

section \<open>Properties of the round-robin distribution\<close>

lemma map_filter_upt_Suc:
  "map f (filter P [0..<Suc n]) =
     (if P 0 then [f 0] else []) @ map (\<lambda>i. f (Suc i)) (filter (\<lambda>i. P (Suc i)) [0..<n])"
proof -
  have "[0..<Suc n] = 0 # map Suc [0..<n]"
    by (simp add: upt_conv_Cons map_Suc_upt del: upt_Suc)
  then show ?thesis
    by (simp add: filter_map comp_def del: upt_Suc)
qed

lemma mset_tests_update:
  "i < length xs \<Longrightarrow>
     mset (concat (map tests (xs[i := add_test (xs ! i) t r]))) =
       add_mset t (mset (concat (map tests xs)))"
proof (induction xs arbitrary: i)
  case Nil
  then show ?case by simp
next
  case (Cons x xs)
  then show ?case by (cases i) (simp_all add: add_test_def)
qed

lemma divide_remaining_loop_mset:
  assumes "idx < length suites"
  shows "\<exists>res. divide_remaining_loop rest suites idx = Inr res \<and> length res = length suites \<and>
           mset (concat (map tests res)) = mset (concat (map tests suites)) + mset (map fst rest)"
  using assms
proof (induction rest arbitrary: suites idx)
  case Nil
  then show ?case by simp
next
  case (Cons p rest)
  obtain t r where p: "p = (t, r)" by (cases p)
  let ?s = "suites[idx := add_test (suites ! idx) t r]"
  let ?i = "if Suc idx \<ge> length ?s then 0 else Suc idx"
  have "?i < length ?s" using Cons.prems by auto
  from Cons.IH[OF this] obtain res where
    r: "divide_remaining_loop rest ?s ?i = Inr res" "length res = length ?s"
       "mset (concat (map tests res)) = mset (concat (map tests ?s)) + mset (map fst rest)"
    by blast
  have "divide_remaining_loop (p # rest) suites idx = Inr res"
    using Cons.prems r(1) by (simp add: p Let_def)
  moreover have "mset (concat (map tests res)) =
      mset (concat (map tests suites)) + mset (map fst (p # rest))"
    using r(3) Cons.prems by (simp add: mset_tests_update p)
  ultimately show ?case using r(2) by simp
qed

lemma divide_remaining_loop_round_robin:
  assumes "idx < length suites"
  shows "\<exists>res. divide_remaining_loop rest suites idx = Inr res \<and> length res = length suites \<and>
           (\<forall>j<length suites.
              tests (res ! j) = tests (suites ! j) @
                map (\<lambda>i. fst (rest ! i))
                  (filter (\<lambda>i. (idx + i) mod length suites = j) [0..<length rest]) \<and>
              total_runtime (res ! j) = total_runtime (suites ! j) +
                sum_list (map (\<lambda>i. snd (rest ! i))
                  (filter (\<lambda>i. (idx + i) mod length suites = j) [0..<length rest])))"
  using assms
proof (induction rest arbitrary: suites idx)
  case Nil
  then show ?case by simp
next
  case (Cons p rest)
  obtain t r where p: "p = (t, r)" by (cases p)
  let ?n = "length suites"
  define s' where "s' = suites[idx := add_test (suites ! idx) t r]"
  define i' where "i' = (if Suc idx \<ge> length s' then 0 else Suc idx)"
  have len: "length s' = ?n" by (simp add: s'_def)
  have i: "i' < length s'" using Cons.prems by (auto simp: i'_def s'_def)
  have imod: "i' = Suc idx mod ?n"
  proof (cases "Suc idx = ?n")
    case True
    then show ?thesis by (simp add: i'_def len)
  next
    case False
    with Cons.prems have "Suc idx < ?n" by simp
    then show ?thesis by (simp add: i'_def len)
  qed
  from Cons.IH[OF i] obtain res where
    r: "divide_remaining_loop rest s' i' = Inr res" "length res = ?n"
    and rr: "\<And>j. j < ?n \<Longrightarrow>
              tests (res ! j) = tests (s' ! j) @
                map (\<lambda>i. fst (rest ! i))
                  (filter (\<lambda>i. (i' + i) mod ?n = j) [0..<length rest]) \<and>
              total_runtime (res ! j) = total_runtime (s' ! j) +
                sum_list (map (\<lambda>i. snd (rest ! i))
                  (filter (\<lambda>i. (i' + i) mod ?n = j) [0..<length rest]))"
    unfolding len by blast
  have step: "divide_remaining_loop (p # rest) suites idx = Inr res"
    using Cons.prems r(1) by (simp add: p Let_def s'_def i'_def)
  have shift: "\<And>i. (i' + i) mod ?n = (idx + Suc i) mod ?n"
    unfolding imod by (metis add_Suc add_Suc_right mod_add_left_eq)
  have "tests (res ! j) = tests (suites ! j) @
                map (\<lambda>i. fst ((p # rest) ! i))
                  (filter (\<lambda>i. (idx + i) mod ?n = j) [0..<length (p # rest)]) \<and>
              total_runtime (res ! j) = total_runtime (suites ! j) +
                sum_list (map (\<lambda>i. snd ((p # rest) ! i))
                  (filter (\<lambda>i. (idx + i) mod ?n = j) [0..<length (p # rest)]))"
    if j: "j < ?n" for j
  proof (cases "j = idx")
    case True
    have "s' ! j = add_test (suites ! j) t r" using True Cons.prems by (simp add: s'_def)
    then show ?thesis
      using rr[OF j] Cons.prems True
      by (simp add: map_filter_upt_Suc shift p add_test_def del: upt_Suc)
  next
    case False
    have "s' ! j = suites ! j" using False by (simp add: s'_def)
    then show ?thesis
      using rr[OF j] Cons.prems j False
      by (simp add: map_filter_upt_Suc shift p del: upt_Suc)
  qed
  then show ?case using step r(2) by simp
qed

section \<open>The packer keeps every test\<close>

lemma tests_map_bin_of: "concat (map (tests \<circ> bin_of) segs) = map fst (concat segs)"
  by (induction segs) (simp_all add: bin_of_def)

lemma divide_loop_start:
  assumes "pack_trace mx ms 0 T [] [] (length T) = (a, b, c)"
  shows "divide_loop mx ms 0 T [] Suite_init (length T) = (map bin_of a, bin_of b, c)"
  using divide_loop_trace[of mx ms 0 T "[]" "[]" "length T"] assms
  by (simp add: Suite_init_bin_of)

lemma divide_tests_into_suites_mset:
  "\<exists>suites. divide_tests_into_suites T mx ms = Inr suites \<and>
      mset (concat (map tests suites)) = mset (map fst T)"
proof -
  obtain a b c where tr: "pack_trace mx ms 0 T [] [] (length T) = (a, b, c)"
    by (cases "pack_trace mx ms 0 T [] [] (length T)")
  note dl = divide_loop_start[OF tr]
  from pack_trace_concat[OF tr] have
    cc: "concat a @ b = take c T" and
    br: "c = length T \<or> (c < length T \<and> py_truthy ms \<and> a \<noteq> [] \<and> b = [])"
    by simp_all
  define suites where
    "suites = (if get_test_count (bin_of b) > 0 then map bin_of a @ [bin_of b] else map bin_of a)"
  have st: "concat (map tests suites) = map fst (take c T)"
  proof (cases "b = []")
    case True
    then show ?thesis using cc by (simp add: suites_def count_bin_of tests_map_bin_of)
  next
    case False
    have "concat (map (tests \<circ> bin_of) a) @ tests (bin_of b) = map fst (concat a @ b)"
      by (simp add: tests_map_bin_of) (simp add: bin_of_def)
    then show ?thesis using cc False by (simp add: suites_def count_bin_of)
  qed
  show ?thesis
  proof (cases "py_truthy ms \<and> c < length T")
    case True
    with br have "a \<noteq> []" "b = []" by auto
    then have "0 < length suites" by (simp add: suites_def count_bin_of)
    from divide_remaining_loop_mset[OF this, of "drop c T"] obtain res where
      r: "divide_remaining_loop (drop c T) suites 0 = Inr res"
         "mset (concat (map tests res)) = mset (concat (map tests suites)) + mset (map fst (drop c T))"
      by blast
    have "mset (map fst (take c T)) + mset (map fst (drop c T)) = mset (map fst T)"
      by (metis append_take_drop_id map_append mset_append)
    with r(2) st have "mset (concat (map tests res)) = mset (map fst T)" by simp
    moreover have "divide_tests_into_suites T mx ms = Inr res"
      using True r(1)
      by (simp add: divide_tests_into_suites_def dl suites_def[symmetric]
            divide_remaining_tests_among_suites_def)
    ultimately show ?thesis by blast
  next
    case False
    with br have c: "c = length T" by auto
    have "divide_tests_into_suites T mx ms = Inr suites"
      using False by (auto simp add: divide_tests_into_suites_def dl suites_def[symmetric] Let_def)
    then show ?thesis using st c by simp
  qed
qed

text \<open>
  Claim C1. For a non-empty list of (test, duration) pairs, a positive
  \<^verbatim>\<open>max_time_seconds\<close> and any \<^verbatim>\<open>max_suites\<close> (absent, zero, positive or negative),
  \<^verbatim>\<open>divide_tests_into_suites\<close> returns suites, and the tests of all the suites together are,
  as a multiset, the tests of the input: none is dropped, none is in two suites. This
  includes the runs that stop early at \<^verbatim>\<open>max_suites\<close> and distribute the rest.
\<close>

theorem divide_tests_into_suites_keeps_every_test:
  assumes "tests_runtimes \<noteq> []" and "0 < max_time_seconds"
  shows "\<exists>suites. divide_tests_into_suites tests_runtimes max_time_seconds max_suites = Inr suites \<and>
           mset (concat (map tests suites)) = mset (map fst tests_runtimes)"
  by (rule divide_tests_into_suites_mset)

text \<open>The theorem at three tests of 100 seconds, a budget of 150 and at most two suites.\<close>

theorem divide_tests_into_suites_keeps_every_test_witness:
  "[(''A'', 100), (''B'', 100), (''C'', 100)] \<noteq> ([] :: (string \<times> real) list) \<and> (0::real) < 150 \<and>
   (\<exists>suites. divide_tests_into_suites [(''A'', 100), (''B'', 100), (''C'', 100)] 150 (Some 2) = Inr suites \<and>
      mset (concat (map tests suites)) = mset [''A'', ''B'', ''C''])"
  using divide_tests_into_suites_keeps_every_test
          [of "[(''A'', 100), (''B'', 100), (''C'', 100)]" 150 "Some 2"]
  by simp

section \<open>The early stop and the round-robin distribution\<close>

lemma count_Suite_init: "get_test_count Suite_init = 0"
  by (simp add: get_test_count_def Suite_init_def)

lemma divide_loop_early_stop:
  assumes dl: "divide_loop mx ms 0 T [] Suite_init (length T) = (S, C, n)"
    and stop: "n < length T"
  shows "py_truthy ms \<and> S \<noteq> [] \<and> C = Suite_init"
proof -
  obtain a b c where tr: "pack_trace mx ms 0 T [] [] (length T) = (a, b, c)"
    by (cases "pack_trace mx ms 0 T [] [] (length T)")
  from divide_loop_start[OF tr] dl have eq: "S = map bin_of a" "C = bin_of b" "n = c"
    by simp_all
  from pack_trace_concat[OF tr] stop eq(3) have "py_truthy ms \<and> a \<noteq> [] \<and> b = []"
    by auto
  then show ?thesis by (simp add: eq Suite_init_bin_of)
qed

text \<open>
  Claim C2. When the loop of \<^verbatim>\<open>divide_tests_into_suites\<close> stops early at \<^verbatim>\<open>max_suites\<close>
  (\<^verbatim>\<open>last_test_processed\<close> is then less than the number of tests), the suites closed by
  the loop are not empty in number, no further suite is added, and the tests from
  \<^verbatim>\<open>last_test_processed\<close> on are given to them round-robin from suite 0: suite \<open>j\<close> gets,
  in order, the leftover tests at the positions \<open>i\<close> with \<open>i mod n = j\<close>, for \<open>n\<close> suites,
  and their durations are added to its runtime. For the tests A, B, C, D of 100 seconds
  each, a budget of 150 seconds and at most 2 suites, the result is the suites
  \<open>[A, C]\<close> and \<open>[B, D]\<close>.
\<close>

theorem early_stop_distributes_round_robin:
  "(divide_loop max_time_seconds max_suites 0 tests_runtimes [] Suite_init
        (length tests_runtimes) = (suites, current_suite, last_test_processed) \<and>
    py_truthy max_suites \<and> last_test_processed < length tests_runtimes \<longrightarrow>
      suites \<noteq> [] \<and>
      (\<exists>result.
         divide_tests_into_suites tests_runtimes max_time_seconds max_suites = Inr result \<and>
         length result = length suites \<and>
         (\<forall>j<length suites.
            tests (result ! j) = tests (suites ! j) @
              map (\<lambda>i. fst (drop last_test_processed tests_runtimes ! i))
                (filter (\<lambda>i. i mod length suites = j)
                   [0..<length tests_runtimes - last_test_processed]) \<and>
            total_runtime (result ! j) = total_runtime (suites ! j) +
              sum_list (map (\<lambda>i. snd (drop last_test_processed tests_runtimes ! i))
                (filter (\<lambda>i. i mod length suites = j)
                   [0..<length tests_runtimes - last_test_processed]))))) \<and>
   divide_tests_into_suites
       [(''A'', 100), (''B'', 100), (''C'', 100), (''D'', 100)] 150 (Some 2) =
     Inr [\<lparr>tests = [''A'', ''C''], total_runtime = 200\<rparr>,
          \<lparr>tests = [''B'', ''D''], total_runtime = 200\<rparr>]"
proof (intro conjI impI)
  assume h: "divide_loop max_time_seconds max_suites 0 tests_runtimes [] Suite_init
        (length tests_runtimes) = (suites, current_suite, last_test_processed) \<and>
    py_truthy max_suites \<and> last_test_processed < length tests_runtimes"
  then have dl: "divide_loop max_time_seconds max_suites 0 tests_runtimes [] Suite_init
        (length tests_runtimes) = (suites, current_suite, last_test_processed)"
    and stop: "last_test_processed < length tests_runtimes" and tr: "py_truthy max_suites"
    by simp_all
  from divide_loop_early_stop[OF dl stop] have ne: "suites \<noteq> []" and cur: "current_suite = Suite_init"
    by simp_all
  show "suites \<noteq> []" by (rule ne)
  from ne have pos: "0 < length suites" by simp
  have "divide_tests_into_suites tests_runtimes max_time_seconds max_suites =
          divide_remaining_loop (drop last_test_processed tests_runtimes) suites 0"
    using stop tr dl[unfolded cur]
    by (simp add: divide_tests_into_suites_def count_Suite_init
          divide_remaining_tests_among_suites_def)
  with divide_remaining_loop_round_robin[OF pos, of "drop last_test_processed tests_runtimes"]
  show "\<exists>result.
         divide_tests_into_suites tests_runtimes max_time_seconds max_suites = Inr result \<and>
         length result = length suites \<and>
         (\<forall>j<length suites.
            tests (result ! j) = tests (suites ! j) @
              map (\<lambda>i. fst (drop last_test_processed tests_runtimes ! i))
                (filter (\<lambda>i. i mod length suites = j)
                   [0..<length tests_runtimes - last_test_processed]) \<and>
            total_runtime (result ! j) = total_runtime (suites ! j) +
              sum_list (map (\<lambda>i. snd (drop last_test_processed tests_runtimes ! i))
                (filter (\<lambda>i. i mod length suites = j)
                   [0..<length tests_runtimes - last_test_processed])))"
    by simp
next
  show "divide_tests_into_suites
       [(''A'', 100), (''B'', 100), (''C'', 100), (''D'', 100)] 150 (Some 2) =
     Inr [\<lparr>tests = [''A'', ''C''], total_runtime = 200\<rparr>,
          \<lparr>tests = [''B'', ''D''], total_runtime = 200\<rparr>]"
    by (simp add: divide_tests_into_suites_def divide_remaining_tests_among_suites_def
        get_runtime_def get_test_count_def add_test_def Suite_init_def)
qed

text \<open>The general part of the theorem at the input of its example.\<close>

theorem early_stop_distributes_round_robin_witness:
  "divide_loop 150 (Some 2) 0 [(''A'', 100), (''B'', 100), (''C'', 100), (''D'', 100)] []
       Suite_init (length [(''A'', 100::real), (''B'', 100), (''C'', 100), (''D'', 100)]) =
     ([\<lparr>tests = [''A''], total_runtime = 100\<rparr>, \<lparr>tests = [''B''], total_runtime = 100\<rparr>],
      Suite_init, 2) \<and>
   py_truthy (Some 2) \<and>
   (2::nat) < length [(''A'', 100::real), (''B'', 100), (''C'', 100), (''D'', 100)] \<and>
   (\<exists>result.
      divide_tests_into_suites [(''A'', 100), (''B'', 100), (''C'', 100), (''D'', 100)] 150
        (Some 2) = Inr result \<and>
      length result = 2 \<and>
      tests (result ! 0) = [''A''] @ [''C''] \<and> tests (result ! 1) = [''B''] @ [''D''])"
proof -
  let ?T = "[(''A'', 100::real), (''B'', 100), (''C'', 100), (''D'', 100)]"
  let ?S = "[\<lparr>tests = [''A''], total_runtime = 100\<rparr>, \<lparr>tests = [''B''], total_runtime = 100\<rparr>]"
  have dl: "divide_loop 150 (Some 2) 0 ?T [] Suite_init (length ?T) = (?S, Suite_init, 2)"
    by (simp add: get_runtime_def get_test_count_def add_test_def Suite_init_def)
  have pt: "py_truthy (Some 2)" by simp
  have lt: "(2::nat) < length ?T" by simp
  note gen = early_stop_distributes_round_robin
         [of 150 "Some 2" ?T ?S Suite_init 2, THEN conjunct1, rule_format,
          OF conjI[OF dl conjI[OF pt lt]]]
  then obtain result where
    r: "divide_tests_into_suites ?T 150 (Some 2) = Inr result" "length result = length ?S"
    and rr: "\<forall>j<length ?S. tests (result ! j) = tests (?S ! j) @
              map (\<lambda>i. fst (drop 2 ?T ! i))
                (filter (\<lambda>i. i mod length ?S = j) [0..<length ?T - 2]) \<and>
            total_runtime (result ! j) = total_runtime (?S ! j) +
              sum_list (map (\<lambda>i. snd (drop 2 ?T ! i))
                (filter (\<lambda>i. i mod length ?S = j) [0..<length ?T - 2]))"
    by blast
  have u: "[0..<length ?T - 2] = [0, 1]" by (simp add: upt_conv_Cons)
  from rr[rule_format, of 0] have t0: "tests (result ! 0) = [''A''] @ [''C'']"
    unfolding u by simp
  from rr[rule_format, of 1] have t1: "tests (result ! 1) = [''B''] @ [''D'']"
    unfolding u by simp
  from r(2) have l2: "length result = 2" by simp
  show ?thesis
    by (intro conjI exI[of _ result]) (rule dl pt lt r(1) l2 t0 t1)+
qed

section \<open>The budget of a suite\<close>

lemma later_tests_fit_Nil: "later_tests_fit mx []"
  by (simp add: later_tests_fit_def)

lemma later_tests_fit_single: "later_tests_fit mx [p]"
  by (simp add: later_tests_fit_def)

lemma later_tests_fit_snoc:
  assumes "later_tests_fit mx seg" and "seg \<noteq> [] \<longrightarrow> sum_list (map snd seg) + r \<le> mx"
  shows "later_tests_fit mx (seg @ [(t, r)])"
  unfolding later_tests_fit_def
proof
  fix j assume "j \<in> {1..<length (seg @ [(t, r)])}"
  then have j: "1 \<le> j" "j \<le> length seg" by auto
  show "sum_list (map snd (take j (seg @ [(t, r)]))) + snd ((seg @ [(t, r)]) ! j) \<le> mx"
  proof (cases "j = length seg")
    case True
    with j have "seg \<noteq> []" by auto
    with assms(2) True show ?thesis by simp
  next
    case False
    with j have "j \<in> {1..<length seg}" by auto
    with assms(1) have "sum_list (map snd (take j seg)) + snd (seg ! j) \<le> mx"
      by (simp add: later_tests_fit_def)
    with False j show ?thesis by (simp add: nth_append)
  qed
qed

lemma pack_trace_budget:
  assumes "pack_trace mx ms idx ts segs cseg l = (a, b, c)"
    and "\<forall>s\<in>set segs. s \<noteq> [] \<and> later_tests_fit mx s"
    and "later_tests_fit mx cseg"
  shows "(\<forall>s\<in>set a. s \<noteq> [] \<and> later_tests_fit mx s) \<and> later_tests_fit mx b"
  using assms
proof (induction ts arbitrary: idx segs cseg)
  case Nil
  then show ?case by simp
next
  case (Cons p ts)
  obtain t r where p: "p = (t, r)" by (cases p)
  show ?case
  proof (cases "sum_list (map snd cseg) + r > mx")
    case over: True
    show ?thesis
    proof (cases "cseg = []")
      case True
      with over Cons.prems(1)
      have "pack_trace mx ms (Suc idx) ts segs [(t, r)] l = (a, b, c)"
        by (simp add: p)
      from Cons.IH[OF this Cons.prems(2) later_tests_fit_single] show ?thesis .
    next
      case False
      have segs': "\<forall>s\<in>set (segs @ [cseg]). s \<noteq> [] \<and> later_tests_fit mx s"
        using Cons.prems(2,3) False by simp
      show ?thesis
      proof (cases "py_truthy ms \<and> len_ge (segs @ [cseg]) ms")
        case True
        with over False Cons.prems(1) have "a = segs @ [cseg]" "b = []"
          by (simp_all add: p)
        with segs' show ?thesis by (simp add: later_tests_fit_Nil)
      next
        case F: False
        with over False Cons.prems(1)
        have "pack_trace mx ms (Suc idx) ts (segs @ [cseg]) [(t, r)] l = (a, b, c)"
          by (auto simp: p)
        from Cons.IH[OF this segs' later_tests_fit_single] show ?thesis .
      qed
    qed
  next
    case False
    with Cons.prems(1)
    have "pack_trace mx ms (Suc idx) ts segs (cseg @ [(t, r)]) l = (a, b, c)"
      by (simp add: p)
    moreover have "later_tests_fit mx (cseg @ [(t, r)])"
      using later_tests_fit_snoc[OF Cons.prems(3)] False by simp
    ultimately show ?thesis using Cons.IH Cons.prems(2) by blast
  qed
qed

lemma oversized_alone:
  assumes fit: "later_tests_fit mx seg" and nonneg: "\<forall>p\<in>set seg. 0 \<le> snd p"
    and j: "j < length seg" and big: "mx < snd (seg ! j)"
  shows "length seg = 1"
proof (rule ccontr)
  assume "length seg \<noteq> 1"
  with j have len: "2 \<le> length seg" by simp
  show False
  proof (cases "j = 0")
    case True
    from len have "1 \<in> {1..<length seg}" by simp
    with fit have "sum_list (map snd (take 1 seg)) + snd (seg ! 1) \<le> mx"
      unfolding later_tests_fit_def by blast
    moreover have "take 1 seg = [seg ! 0]" using len
      by (cases seg) simp_all
    moreover have "0 \<le> snd (seg ! 1)" using nonneg len by simp
    ultimately show False using big True by simp
  next
    case False
    with j have "j \<in> {1..<length seg}" by simp
    with fit have "sum_list (map snd (take j seg)) + snd (seg ! j) \<le> mx"
      unfolding later_tests_fit_def by blast
    moreover have "0 \<le> sum_list (map snd (take j seg))"
      using nonneg by (intro sum_list_nonneg) (auto dest: in_set_takeD)
    ultimately show False using big by simp
  qed
qed

lemma filter_mod_empty:
  assumes "m \<le> k" and "k < n"
  shows "filter (\<lambda>i. i mod n = k) [0..<m] = []"
  using assms by (auto simp: filter_empty_conv)

text \<open>
  Claim C3. Let the durations be non-negative and \<^verbatim>\<open>max_time_seconds\<close> positive, and let
  \<^verbatim>\<open>last_test_processed\<close> be its value after the loop. The tests before it are cut into
  consecutive non-empty segments, one for each returned suite. A suite with an index of
  at least the number of leftover tests got nothing from the round-robin distribution
  (all suites, when there was no early stop): it holds exactly the tests of its segment,
  its runtime is the sum of their durations, every test of it but the first was added
  when the runtime before it plus its duration was within \<^verbatim>\<open>max_time_seconds\<close>, and a test
  longer than \<^verbatim>\<open>max_time_seconds\<close> is the only test of its suite.
\<close>

theorem only_first_test_may_exceed_budget:
  assumes nonneg: "\<forall>p\<in>set tests_runtimes. 0 \<le> snd p"
    and pos: "0 < max_time_seconds"
    and dl: "divide_loop max_time_seconds max_suites 0 tests_runtimes [] Suite_init
               (length tests_runtimes) = (suites, current_suite, last_test_processed)"
  shows "\<exists>result segs.
           divide_tests_into_suites tests_runtimes max_time_seconds max_suites = Inr result \<and>
           length segs = length result \<and>
           concat segs = take last_test_processed tests_runtimes \<and>
           (\<forall>k<length result. length tests_runtimes - last_test_processed \<le> k \<longrightarrow>
              segs ! k \<noteq> [] \<and>
              tests (result ! k) = map fst (segs ! k) \<and>
              total_runtime (result ! k) = sum_list (map snd (segs ! k)) \<and>
              (\<forall>j\<in>{1..<length (segs ! k)}.
                 sum_list (map snd (take j (segs ! k))) + snd (segs ! k ! j)
                   \<le> max_time_seconds) \<and>
              (\<forall>j<length (segs ! k).
                 max_time_seconds < snd (segs ! k ! j) \<longrightarrow> length (segs ! k) = 1))"
proof -
  let ?T = tests_runtimes and ?mx = max_time_seconds and ?ms = max_suites
  obtain a b c where tr: "pack_trace ?mx ?ms 0 ?T [] [] (length ?T) = (a, b, c)"
    by (cases "pack_trace ?mx ?ms 0 ?T [] [] (length ?T)")
  from divide_loop_start[OF tr] dl
  have eq: "suites = map bin_of a" "current_suite = bin_of b" "last_test_processed = c"
    by simp_all
  from pack_trace_concat[OF tr] have
    cc: "concat a @ b = take c ?T" and
    br: "c = length ?T \<or> (c < length ?T \<and> py_truthy ?ms \<and> a \<noteq> [] \<and> b = [])"
    by simp_all
  from pack_trace_budget[OF tr] have
    fa: "\<forall>s\<in>set a. s \<noteq> [] \<and> later_tests_fit ?mx s" and fb: "later_tests_fit ?mx b"
    by (simp_all add: later_tests_fit_Nil)
  define segs where "segs = (if b \<noteq> [] then a @ [b] else a)"
  have closed: "(if get_test_count (bin_of b) > 0 then map bin_of a @ [bin_of b] else map bin_of a)
                  = map bin_of segs"
    by (simp add: segs_def count_bin_of)
  have csegs: "concat segs = take c ?T" using cc by (auto simp: segs_def)
  have fs: "\<forall>s\<in>set segs. s \<noteq> [] \<and> later_tests_fit ?mx s"
    using fa fb by (auto simp: segs_def)
  have nn: "\<forall>s\<in>set segs. \<forall>p\<in>set s. 0 \<le> snd p"
  proof (intro ballI)
    fix s p assume "s \<in> set segs" "p \<in> set s"
    then have "p \<in> set (concat segs)" by auto
    then have "p \<in> set ?T" unfolding csegs by (rule in_set_takeD)
    with nonneg show "0 \<le> snd p" by blast
  qed
  have seg_props:
    "segs ! k \<noteq> [] \<and>
     (\<forall>j\<in>{1..<length (segs ! k)}.
        sum_list (map snd (take j (segs ! k))) + snd (segs ! k ! j) \<le> ?mx) \<and>
     (\<forall>j<length (segs ! k). ?mx < snd (segs ! k ! j) \<longrightarrow> length (segs ! k) = 1)"
    if "k < length segs" for k
  proof -
    from that have mem: "segs ! k \<in> set segs" by simp
    with fs have ne: "segs ! k \<noteq> []" and fit: "later_tests_fit ?mx (segs ! k)" by auto
    from nn mem have n1: "\<forall>p\<in>set (segs ! k). 0 \<le> snd p" by blast
    show ?thesis
      using ne fit oversized_alone[OF fit n1]
      by (auto simp: later_tests_fit_def)
  qed
  show ?thesis
  proof (cases "py_truthy ?ms \<and> c < length ?T")
    case True
    with br have "a \<noteq> []" "b = []" by auto
    then have lpos: "0 < length (map bin_of segs)" by (simp add: segs_def)
    from divide_remaining_loop_round_robin[OF lpos, of "drop c ?T"] obtain res where
      r: "divide_remaining_loop (drop c ?T) (map bin_of segs) 0 = Inr res"
         "length res = length segs"
      and rr: "\<And>j. j < length segs \<Longrightarrow>
         tests (res ! j) = tests (map bin_of segs ! j) @
           map (\<lambda>i. fst (drop c ?T ! i))
             (filter (\<lambda>i. i mod length segs = j) [0..<length ?T - c]) \<and>
         total_runtime (res ! j) = total_runtime (map bin_of segs ! j) +
           sum_list (map (\<lambda>i. snd (drop c ?T ! i))
             (filter (\<lambda>i. i mod length segs = j) [0..<length ?T - c]))"
      by auto
    have res: "divide_tests_into_suites ?T ?mx ?ms = Inr res"
      using True r(1) tr
      by (simp add: divide_tests_into_suites_def divide_loop_start[OF tr] closed
            divide_remaining_tests_among_suites_def)
    have untouched: "tests (res ! k) = map fst (segs ! k) \<and>
                     total_runtime (res ! k) = sum_list (map snd (segs ! k))"
      if "k < length segs" "length ?T - c \<le> k" for k
      using rr[OF that(1)] filter_mod_empty[OF that(2,1)] that(1)
      by (simp add: bin_of_def)
    show ?thesis
      using res r(2) csegs seg_props untouched
      by (intro exI[of _ res] exI[of _ segs]) (simp add: eq(3))
  next
    case False
    have res: "divide_tests_into_suites ?T ?mx ?ms = Inr (map bin_of segs)"
      using False tr
      by (auto simp add: divide_tests_into_suites_def divide_loop_start[OF tr] closed)
    show ?thesis
      using res csegs seg_props
      by (intro exI[of _ "map bin_of segs"] exI[of _ segs]) (simp add: eq(3) bin_of_def)
  qed
qed

text \<open>
  The theorem at a run with no early stop: A is oversized and alone, B and C share a
  suite, D did not fit with them.
\<close>

theorem only_first_test_may_exceed_budget_witness:
  "list_all (\<lambda>p. 0 \<le> snd p) [(''A'', 200::real), (''B'', 100), (''C'', 40), (''D'', 30)] \<and>
   (0::real) < 150 \<and>
   divide_loop 150 None 0 [(''A'', 200), (''B'', 100), (''C'', 40), (''D'', 30)] [] Suite_init
       (length [(''A'', 200::real), (''B'', 100), (''C'', 40), (''D'', 30)]) =
     ([\<lparr>tests = [''A''], total_runtime = 200\<rparr>, \<lparr>tests = [''B'', ''C''], total_runtime = 140\<rparr>],
      \<lparr>tests = [''D''], total_runtime = 30\<rparr>, 4) \<and>
   (\<exists>result segs.
      divide_tests_into_suites [(''A'', 200), (''B'', 100), (''C'', 40), (''D'', 30)] 150 None
        = Inr result \<and>
      length segs = length result \<and>
      concat segs = take 4 [(''A'', 200::real), (''B'', 100), (''C'', 40), (''D'', 30)] \<and>
      (\<forall>k<length result.
         segs ! k \<noteq> [] \<and> tests (result ! k) = map fst (segs ! k) \<and>
         (\<forall>j<length (segs ! k). 150 < snd (segs ! k ! j) \<longrightarrow> length (segs ! k) = 1)))"
proof -
  let ?T = "[(''A'', 200::real), (''B'', 100), (''C'', 40), (''D'', 30)]"
  have h1: "\<forall>p\<in>set ?T. 0 \<le> snd p" by simp
  have h2: "(0::real) < 150" by simp
  have h3: "divide_loop 150 None 0 ?T [] Suite_init (length ?T) =
     ([\<lparr>tests = [''A''], total_runtime = 200\<rparr>, \<lparr>tests = [''B'', ''C''], total_runtime = 140\<rparr>],
      \<lparr>tests = [''D''], total_runtime = 30\<rparr>, 4)"
    by (simp add: get_runtime_def get_test_count_def add_test_def Suite_init_def)
  from only_first_test_may_exceed_budget[OF h1 h2 h3] obtain result segs where
    "divide_tests_into_suites ?T 150 None = Inr result"
    "length segs = length result" "concat segs = take 4 ?T"
    "\<forall>k<length result. length ?T - 4 \<le> k \<longrightarrow>
         segs ! k \<noteq> [] \<and> tests (result ! k) = map fst (segs ! k) \<and>
         total_runtime (result ! k) = sum_list (map snd (segs ! k)) \<and>
         (\<forall>j\<in>{1..<length (segs ! k)}.
                 sum_list (map snd (take j (segs ! k))) + snd (segs ! k ! j) \<le> 150) \<and>
         (\<forall>j<length (segs ! k). 150 < snd (segs ! k ! j) \<longrightarrow> length (segs ! k) = 1)"
    by blast
  then have "\<exists>result segs.
      divide_tests_into_suites ?T 150 None = Inr result \<and>
      length segs = length result \<and> concat segs = take 4 ?T \<and>
      (\<forall>k<length result.
         segs ! k \<noteq> [] \<and> tests (result ! k) = map fst (segs ! k) \<and>
         (\<forall>j<length (segs ! k). 150 < snd (segs ! k ! j) \<longrightarrow> length (segs ! k) = 1))"
    by (intro exI[of _ result] exI[of _ segs]) simp
  moreover have "list_all (\<lambda>p. 0 \<le> snd p) ?T" by simp
  ultimately show ?thesis using h2 h3 by blast
qed

section \<open>The fallback partition is round-robin\<close>

lemma py_index_mod:
  assumes "1 \<le> num" and "length suites = nat num"
  shows "py_index suites (int idx mod num) = Inr (idx mod nat num)"
proof -
  have npos: "0 < num" using assms(1) by simp
  have a: "\<not> int idx mod num < 0" using npos by (simp add: not_less)
  have b: "int idx mod num < int (length suites)" using npos assms(2) by simp
  have c: "nat (int idx mod num) = idx mod nat num"
    using npos by (simp add: nat_mod_distrib)
  show ?thesis
    unfolding py_index_def using a b c by simp
qed

lemma fallback_loop_round_robin:
  assumes "1 \<le> num" and "length suites = nat num"
  shows "\<exists>res. fallback_loop num idx ts suites = Inr res \<and> length res = length suites \<and>
           (\<forall>j<length suites.
              tests (res ! j) = tests (suites ! j) @
                map (\<lambda>i. ts ! i) (filter (\<lambda>i. (idx + i) mod nat num = j) [0..<length ts]) \<and>
              total_runtime (res ! j) = total_runtime (suites ! j))"
  using assms
proof (induction ts arbitrary: suites idx)
  case Nil
  then show ?case by simp
next
  case (Cons t ts)
  let ?n = "nat num"
  define k where "k = idx mod ?n"
  define s' where "s' = suites[k := add_test (suites ! k) t 0]"
  have npos: "0 < ?n" using Cons.prems(1) by simp
  have k: "k < length suites" using npos Cons.prems(2) by (simp add: k_def)
  have len: "length s' = ?n" using Cons.prems(2) by (simp add: s'_def)
  from Cons.IH[OF Cons.prems(1) len, of "Suc idx"] obtain res where
    r: "fallback_loop num (Suc idx) ts s' = Inr res" "length res = ?n"
    and rr: "\<And>j. j < ?n \<Longrightarrow>
              tests (res ! j) = tests (s' ! j) @
                map (\<lambda>i. ts ! i) (filter (\<lambda>i. (Suc idx + i) mod ?n = j) [0..<length ts]) \<and>
              total_runtime (res ! j) = total_runtime (s' ! j)"
    unfolding len by blast
  have step: "fallback_loop num idx (t # ts) suites = Inr res"
    using Cons.prems r(1) py_index_mod[OF Cons.prems, of idx]
    by (simp add: s'_def k_def)
  have "tests (res ! j) = tests (suites ! j) @
                map (\<lambda>i. (t # ts) ! i)
                  (filter (\<lambda>i. (idx + i) mod ?n = j) [0..<length (t # ts)]) \<and>
              total_runtime (res ! j) = total_runtime (suites ! j)"
    if j: "j < ?n" for j
  proof (cases "j = k")
    case True
    have "s' ! j = add_test (suites ! j) t 0" using True k by (simp add: s'_def)
    then show ?thesis
      using rr[OF j] True
      by (simp add: map_filter_upt_Suc add_test_def k_def del: upt_Suc)
  next
    case False
    have "s' ! j = suites ! j" using False by (simp add: s'_def)
    then show ?thesis
      using rr[OF j] False
      by (simp add: map_filter_upt_Suc k_def del: upt_Suc)
  qed
  then show ?case using step r(2) Cons.prems(2) by simp
qed

lemma partition_fallback_round_robin:
  assumes "1 \<le> num"
  shows "\<exists>bins. partition_fallback all_tests num = Inr bins \<and> length bins = nat num \<and>
           (\<forall>j<nat num.
              tests (bins ! j) =
                map (\<lambda>i. all_tests ! i) (filter (\<lambda>i. i mod nat num = j) [0..<length all_tests]) \<and>
              total_runtime (bins ! j) = 0)"
proof -
  have len: "length (replicate (nat num) Suite_init) = nat num" by simp
  from fallback_loop_round_robin[OF assms len, of 0 all_tests]
  show ?thesis
    by (auto simp: partition_fallback_def Suite_init_def)
qed

text \<open>
  Claim C7. For at least one fallback suite, \<^verbatim>\<open>calculate_fallback_suites\<close> returns that many
  suites; suite \<open>j\<close> holds, in order, the tests at the positions \<open>i\<close> of the listed tests
  with \<open>i mod n = j\<close>, and its runtime is zero, each test being added with duration 0. Ten
  tests t0 to t9 in 3 suites give the suites of t0, t3, t6, t9, of t1, t4, t7 and of t2, t5, t8.
\<close>

theorem fallback_assigns_position_mod_num_bins:
  "(1 \<le> fallback_num_sub_suites self \<longrightarrow>
      (\<exists>bins. calculate_fallback_suites self = Inr bins \<and>
         length bins = nat (fallback_num_sub_suites self) \<and>
         (\<forall>j<nat (fallback_num_sub_suites self).
            tests (bins ! j) =
              map (\<lambda>i. list_tests self ! i)
                (filter (\<lambda>i. i mod nat (fallback_num_sub_suites self) = j)
                   [0..<length (list_tests self)]) \<and>
            total_runtime (bins ! j) = 0))) \<and>
   calculate_fallback_suites
      \<lparr>fallback_num_sub_suites = 3, max_sub_suites = None, execution_time_minutes = 60,
       suite_tests = [''t0'', ''t1'', ''t2'', ''t3'', ''t4'', ''t5'', ''t6'', ''t7'', ''t8'', ''t9''],
       test_list = []\<rparr> =
     Inr [\<lparr>tests = [''t0'', ''t3'', ''t6'', ''t9''], total_runtime = 0\<rparr>,
          \<lparr>tests = [''t1'', ''t4'', ''t7''], total_runtime = 0\<rparr>,
          \<lparr>tests = [''t2'', ''t5'', ''t8''], total_runtime = 0\<rparr>]"
proof (intro conjI impI)
  assume "1 \<le> fallback_num_sub_suites self"
  from partition_fallback_round_robin[OF this, of "list_tests self"]
  show "\<exists>bins. calculate_fallback_suites self = Inr bins \<and>
         length bins = nat (fallback_num_sub_suites self) \<and>
         (\<forall>j<nat (fallback_num_sub_suites self).
            tests (bins ! j) =
              map (\<lambda>i. list_tests self ! i)
                (filter (\<lambda>i. i mod nat (fallback_num_sub_suites self) = j)
                   [0..<length (list_tests self)]) \<and>
            total_runtime (bins ! j) = 0)"
    by (simp add: calculate_fallback_suites_def)
next
  show "calculate_fallback_suites
      \<lparr>fallback_num_sub_suites = 3, max_sub_suites = None, execution_time_minutes = 60,
       suite_tests = [''t0'', ''t1'', ''t2'', ''t3'', ''t4'', ''t5'', ''t6'', ''t7'', ''t8'', ''t9''],
       test_list = []\<rparr> =
     Inr [\<lparr>tests = [''t0'', ''t3'', ''t6'', ''t9''], total_runtime = 0\<rparr>,
          \<lparr>tests = [''t1'', ''t4'', ''t7''], total_runtime = 0\<rparr>,
          \<lparr>tests = [''t2'', ''t5'', ''t8''], total_runtime = 0\<rparr>]"
    by (simp add: calculate_fallback_suites_def partition_fallback_def list_tests_def
        py_index_def add_test_def Suite_init_def numeral_3_eq_3)
qed

text \<open>The general part of the theorem at three tests and two suites.\<close>

theorem fallback_assigns_position_mod_num_bins_witness:
  "(1::int) \<le> fallback_num_sub_suites
      \<lparr>fallback_num_sub_suites = 2, max_sub_suites = None, execution_time_minutes = 60,
       suite_tests = [''a'', ''b'', ''c''], test_list = []\<rparr> \<and>
   (\<exists>bins. calculate_fallback_suites
      \<lparr>fallback_num_sub_suites = 2, max_sub_suites = None, execution_time_minutes = 60,
       suite_tests = [''a'', ''b'', ''c''], test_list = []\<rparr> = Inr bins \<and>
      length bins = 2 \<and> total_runtime (bins ! 0) = 0 \<and> total_runtime (bins ! 1) = 0)"
proof -
  let ?self = "\<lparr>fallback_num_sub_suites = 2, max_sub_suites = None, execution_time_minutes = 60,
       suite_tests = [''a'', ''b'', ''c''], test_list = []\<rparr>"
  have h: "1 \<le> fallback_num_sub_suites ?self" by simp
  from fallback_assigns_position_mod_num_bins[of ?self, THEN conjunct1, rule_format, OF h]
  obtain bins where
    b: "calculate_fallback_suites ?self = Inr bins"
       "length bins = nat (fallback_num_sub_suites ?self)"
    and bb: "\<forall>j<nat (fallback_num_sub_suites ?self).
            tests (bins ! j) =
              map (\<lambda>i. list_tests ?self ! i)
                (filter (\<lambda>i. i mod nat (fallback_num_sub_suites ?self) = j)
                   [0..<length (list_tests ?self)]) \<and>
            total_runtime (bins ! j) = 0"
    by blast
  from b(2) have l: "length bins = 2" by simp
  from bb[rule_format, of 0] have r0: "total_runtime (bins ! 0) = 0" by simp
  from bb[rule_format, of 1] have r1: "total_runtime (bins ! 1) = 0" by simp
  show ?thesis
    by (intro conjI exI[of _ bins]) (rule h b(1) l r0 r1)+
qed

section \<open>Empty suites\<close>

lemma divide_tests_into_suites_nonempty:
  assumes "divide_tests_into_suites T mx ms = Inr result" and "s \<in> set result"
  shows "tests s \<noteq> []"
proof -
  obtain a b c where tr: "pack_trace mx ms 0 T [] [] (length T) = (a, b, c)"
    by (cases "pack_trace mx ms 0 T [] [] (length T)")
  from pack_trace_concat[OF tr] have
    br: "c = length T \<or> (c < length T \<and> py_truthy ms \<and> a \<noteq> [] \<and> b = [])"
    by simp
  from pack_trace_budget[OF tr] have fa: "\<forall>s\<in>set a. s \<noteq> []"
    by (simp add: later_tests_fit_Nil)
  define segs where "segs = (if b \<noteq> [] then a @ [b] else a)"
  have closed: "(if get_test_count (bin_of b) > 0 then map bin_of a @ [bin_of b] else map bin_of a)
                  = map bin_of segs"
    by (simp add: segs_def count_bin_of)
  have fs: "\<forall>s\<in>set segs. s \<noteq> []" using fa by (auto simp: segs_def)
  have ne0: "tests (map bin_of segs ! j) \<noteq> []" if "j < length segs" for j
    using fs that by (simp add: bin_of_def)
  from assms(2) obtain j where j: "j < length result" "s = result ! j"
    by (auto simp: in_set_conv_nth)
  show ?thesis
  proof (cases "py_truthy ms \<and> c < length T")
    case True
    with br have "a \<noteq> []" "b = []" by auto
    then have lpos: "0 < length (map bin_of segs)" by (simp add: segs_def)
    from divide_remaining_loop_round_robin[OF lpos, of "drop c T"] obtain res where
      r: "divide_remaining_loop (drop c T) (map bin_of segs) 0 = Inr res"
         "length res = length segs"
      and rr: "\<And>j. j < length segs \<Longrightarrow>
         tests (res ! j) = tests (map bin_of segs ! j) @
           map (\<lambda>i. fst (drop c T ! i))
             (filter (\<lambda>i. i mod length segs = j) [0..<length T - c])"
      by auto
    have "divide_tests_into_suites T mx ms = Inr res"
      using True r(1)
      by (simp add: divide_tests_into_suites_def divide_loop_start[OF tr] closed
            divide_remaining_tests_among_suites_def)
    with assms(1) have "result = res" by simp
    with j r(2) rr[of j] ne0[of j] show ?thesis by simp
  next
    case False
    have "divide_tests_into_suites T mx ms = Inr (map bin_of segs)"
      using False
      by (auto simp add: divide_tests_into_suites_def divide_loop_start[OF tr] closed)
    with assms(1) have "result = map bin_of segs" by simp
    with j ne0[of j] show ?thesis by simp
  qed
qed

text \<open>
  Claim C10. For at least one fallback suite and any list of tests, the empty one too,
  \<^verbatim>\<open>calculate_fallback_suites\<close> returns exactly that many suites, and a suite whose index
  is not below the number of tests is empty, with runtime 0, and still returned. A suite
  returned by \<^verbatim>\<open>divide_tests_into_suites\<close> is never empty.
\<close>

theorem fallback_keeps_empty_bins:
  "(1 \<le> fallback_num_sub_suites self \<longrightarrow>
      (\<exists>bins. calculate_fallback_suites self = Inr bins \<and>
         length bins = nat (fallback_num_sub_suites self) \<and>
         (\<forall>j<nat (fallback_num_sub_suites self). length (list_tests self) \<le> j \<longrightarrow>
            tests (bins ! j) = [] \<and> total_runtime (bins ! j) = 0))) \<and>
   (\<forall>result. divide_tests_into_suites tests_runtimes max_time_seconds max_suites = Inr result \<longrightarrow>
      (\<forall>s\<in>set result. tests s \<noteq> []))"
proof (intro conjI impI allI ballI)
  assume h: "1 \<le> fallback_num_sub_suites self"
  let ?n = "nat (fallback_num_sub_suites self)"
  from partition_fallback_round_robin[OF h, of "list_tests self"] obtain bins where
    b: "partition_fallback (list_tests self) (fallback_num_sub_suites self) = Inr bins"
       "length bins = ?n"
    and bb: "\<And>j. j < ?n \<Longrightarrow>
            tests (bins ! j) =
              map (\<lambda>i. list_tests self ! i)
                (filter (\<lambda>i. i mod ?n = j) [0..<length (list_tests self)]) \<and>
            total_runtime (bins ! j) = 0"
    by blast
  have "tests (bins ! j) = [] \<and> total_runtime (bins ! j) = 0"
    if "j < ?n" "length (list_tests self) \<le> j" for j
    using bb[OF that(1)] filter_mod_empty[OF that(2,1)] by simp
  with b show "\<exists>bins. calculate_fallback_suites self = Inr bins \<and>
         length bins = ?n \<and>
         (\<forall>j<?n. length (list_tests self) \<le> j \<longrightarrow>
            tests (bins ! j) = [] \<and> total_runtime (bins ! j) = 0)"
    by (simp add: calculate_fallback_suites_def)
next
  fix result s
  assume "divide_tests_into_suites tests_runtimes max_time_seconds max_suites = Inr result"
    and "s \<in> set result"
  then show "tests s \<noteq> []" by (rule divide_tests_into_suites_nonempty)
qed

text \<open>One test and three fallback suites: two of them are empty. One test packed: one suite.\<close>

theorem fallback_keeps_empty_bins_witness:
  "(1::int) \<le> fallback_num_sub_suites
      \<lparr>fallback_num_sub_suites = 3, max_sub_suites = None, execution_time_minutes = 60,
       suite_tests = [''a''], test_list = []\<rparr> \<and>
   calculate_fallback_suites
      \<lparr>fallback_num_sub_suites = 3, max_sub_suites = None, execution_time_minutes = 60,
       suite_tests = [''a''], test_list = []\<rparr> =
     Inr [\<lparr>tests = [''a''], total_runtime = 0\<rparr>, \<lparr>tests = [], total_runtime = 0\<rparr>,
          \<lparr>tests = [], total_runtime = 0\<rparr>] \<and>
   divide_tests_into_suites [(''a'', 10)] 60 None = Inr [\<lparr>tests = [''a''], total_runtime = 10\<rparr>] \<and>
   list_all (\<lambda>s. tests s \<noteq> []) [\<lparr>tests = [''a''], total_runtime = 10\<rparr>] \<and>
   (\<exists>bins. calculate_fallback_suites
      \<lparr>fallback_num_sub_suites = 3, max_sub_suites = None, execution_time_minutes = 60,
       suite_tests = [''a''], test_list = []\<rparr> = Inr bins \<and> length bins = 3 \<and>
      tests (bins ! 1) = [] \<and> tests (bins ! 2) = [])"
proof -
  let ?self = "\<lparr>fallback_num_sub_suites = 3, max_sub_suites = None, execution_time_minutes = 60,
       suite_tests = [''a''], test_list = []\<rparr>"
  have h: "1 \<le> fallback_num_sub_suites ?self" by simp
  have ev: "calculate_fallback_suites ?self =
     Inr [\<lparr>tests = [''a''], total_runtime = 0\<rparr>, \<lparr>tests = [], total_runtime = 0\<rparr>,
          \<lparr>tests = [], total_runtime = 0\<rparr>]"
    by (simp add: calculate_fallback_suites_def partition_fallback_def list_tests_def
        py_index_def add_test_def Suite_init_def numeral_3_eq_3)
  have dv: "divide_tests_into_suites [(''a'', 10)] 60 None = Inr [\<lparr>tests = [''a''], total_runtime = 10\<rparr>]"
    by (simp add: divide_tests_into_suites_def get_runtime_def get_test_count_def add_test_def
          Suite_init_def)
  note inst = fallback_keeps_empty_bins[of ?self "[(''a'', 10)]" 60 None]
  from inst[THEN conjunct2, rule_format, OF dv]
  have ne: "list_all (\<lambda>s. tests s \<noteq> []) [\<lparr>tests = [''a''], total_runtime = 10\<rparr>]"
    unfolding list_all_iff by blast
  from inst[THEN conjunct1, rule_format, OF h] obtain bins where
    b: "calculate_fallback_suites ?self = Inr bins" "length bins = nat (fallback_num_sub_suites ?self)"
    and bb: "\<forall>j<nat (fallback_num_sub_suites ?self). length (list_tests ?self) \<le> j \<longrightarrow>
            tests (bins ! j) = [] \<and> total_runtime (bins ! j) = 0"
    by blast
  from b(2) have l: "length bins = 3" by simp
  from bb[rule_format, of 1] have t1: "tests (bins ! 1) = []" by (simp add: list_tests_def)
  from bb[rule_format, of 2] have t2: "tests (bins ! 2) = []" by (simp add: list_tests_def)
  show ?thesis
    by (intro conjI exI[of _ bins]) (rule h ev dv ne b(1) l t1 t2)+
qed

section \<open>Merging timing samples\<close>

lemma set_update_cases:
  "p \<in> set (AList.update k v al) \<Longrightarrow> p = (k, v) \<or> p \<in> set al"
  by (induction al) (auto split: if_splits)

lemma map_fst_update:
  "map fst (AList.update k v al) = (if k \<in> fst ` set al then map fst al else map fst al @ [k])"
  by (induction al) auto

lemma add_runtime_info_merge:
  assumes "map_of runtime_dict test_name = Some info" and "num_run info + n \<noteq> 0"
  shows "add_runtime_info runtime_dict test_name d n =
           Inr (AList.update test_name
                  \<lparr>duration = (duration info * of_int (num_run info) + d * of_int n)
                                / of_int (num_run info + n),
                   num_run = num_run info + n\<rparr> runtime_dict)"
  using assms by (simp add: add_runtime_info_def average_def)

text \<open>
  Claim C4. Adding a sample of duration \<open>d\<close> and \<open>n\<close> runs for a test that has the entry
  \<open>info\<close> replaces the duration by the weighted average
  \<open>(duration info * num_run info + d * n) / (num_run info + n)\<close> and the run count by the
  sum \<open>num_run info + n\<close>, when that sum is not zero (for a zero sum the division raises);
  the other entries and the order of the keys stay. The first sample of a test is stored
  as it is. The samples are merged one after the other in the order of the documents:
  (10 s, 5 runs) and then (20 s, 5 runs) give 15 s and 10 runs, and a third sample
  (30 s, 10 runs) then gives 22.5 s and 20 runs.
\<close>

theorem merge_is_weighted_average:
  "(map_of runtime_dict test_name = Some info \<and> num_run info + n \<noteq> 0 \<longrightarrow>
      (\<exists>dict'. add_runtime_info runtime_dict test_name d n = Inr dict' \<and>
         map_of dict' test_name =
           Some \<lparr>duration = (duration info * of_int (num_run info) + d * of_int n)
                             / of_int (num_run info + n),
                 num_run = num_run info + n\<rparr> \<and>
         map fst dict' = map fst runtime_dict \<and>
         (\<forall>k. k \<noteq> test_name \<longrightarrow> map_of dict' k = map_of runtime_dict k))) \<and>
   (map_of runtime_dict test_name = None \<longrightarrow>
      (\<exists>dict'. add_runtime_info runtime_dict test_name d n = Inr dict' \<and>
         map_of dict' test_name = Some \<lparr>duration = d, num_run = n\<rparr> \<and>
         map fst dict' = map fst runtime_dict @ [test_name])) \<and>
   TestStats_init sample_testname
       [\<lparr>doc_test_file = ''jstests/a.js'', doc_avg_duration_pass = 10, doc_num_pass = 5\<rparr>,
        \<lparr>doc_test_file = ''jstests/a.js'', doc_avg_duration_pass = 20, doc_num_pass = 5\<rparr>] =
     Inr \<lparr>runtime_by_test = [(''jstests/a.js'', \<lparr>duration = 15, num_run = 10\<rparr>)],
          hook_runtime_by_test = []\<rparr> \<and>
   TestStats_init sample_testname
       [\<lparr>doc_test_file = ''jstests/a.js'', doc_avg_duration_pass = 10, doc_num_pass = 5\<rparr>,
        \<lparr>doc_test_file = ''jstests/a.js'', doc_avg_duration_pass = 20, doc_num_pass = 5\<rparr>,
        \<lparr>doc_test_file = ''jstests/a.js'', doc_avg_duration_pass = 30, doc_num_pass = 10\<rparr>] =
     Inr \<lparr>runtime_by_test = [(''jstests/a.js'', \<lparr>duration = 45 / 2, num_run = 20\<rparr>)],
          hook_runtime_by_test = []\<rparr>"
proof (intro conjI impI)
  assume h: "map_of runtime_dict test_name = Some info \<and> num_run info + n \<noteq> 0"
  then have k: "test_name \<in> fst ` set runtime_dict"
    by (metis domI dom_map_of_conv_image_fst)
  show "\<exists>dict'. add_runtime_info runtime_dict test_name d n = Inr dict' \<and>
         map_of dict' test_name =
           Some \<lparr>duration = (duration info * of_int (num_run info) + d * of_int n)
                             / of_int (num_run info + n),
                 num_run = num_run info + n\<rparr> \<and>
         map fst dict' = map fst runtime_dict \<and>
         (\<forall>k. k \<noteq> test_name \<longrightarrow> map_of dict' k = map_of runtime_dict k)"
    using h k add_runtime_info_merge[of runtime_dict test_name info n d]
    by (simp add: update_conv' map_fst_update)
next
  assume h: "map_of runtime_dict test_name = None"
  then have k: "test_name \<notin> fst ` set runtime_dict"
    by (simp add: map_of_eq_None_iff)
  show "\<exists>dict'. add_runtime_info runtime_dict test_name d n = Inr dict' \<and>
         map_of dict' test_name = Some \<lparr>duration = d, num_run = n\<rparr> \<and>
         map fst dict' = map fst runtime_dict @ [test_name]"
    using h k by (simp add: add_runtime_info_def update_conv' map_fst_update)
next
  show "TestStats_init sample_testname
       [\<lparr>doc_test_file = ''jstests/a.js'', doc_avg_duration_pass = 10, doc_num_pass = 5\<rparr>,
        \<lparr>doc_test_file = ''jstests/a.js'', doc_avg_duration_pass = 20, doc_num_pass = 5\<rparr>] =
     Inr \<lparr>runtime_by_test = [(''jstests/a.js'', \<lparr>duration = 15, num_run = 10\<rparr>)],
          hook_runtime_by_test = []\<rparr>"
    by (simp add: TestStats_init_def add_stats_def add_test_stats_def add_runtime_info_def
          average_def sample_testname_def)
next
  show "TestStats_init sample_testname
       [\<lparr>doc_test_file = ''jstests/a.js'', doc_avg_duration_pass = 10, doc_num_pass = 5\<rparr>,
        \<lparr>doc_test_file = ''jstests/a.js'', doc_avg_duration_pass = 20, doc_num_pass = 5\<rparr>,
        \<lparr>doc_test_file = ''jstests/a.js'', doc_avg_duration_pass = 30, doc_num_pass = 10\<rparr>] =
     Inr \<lparr>runtime_by_test = [(''jstests/a.js'', \<lparr>duration = 45 / 2, num_run = 20\<rparr>)],
          hook_runtime_by_test = []\<rparr>"
    by (simp add: TestStats_init_def add_stats_def add_test_stats_def add_runtime_info_def
          average_def sample_testname_def)
qed

text \<open>The two general parts of the theorem at the same samples.\<close>

theorem merge_is_weighted_average_witness:
  "map_of [(''t'', \<lparr>duration = 10, num_run = 5\<rparr>)] ''t'' = Some \<lparr>duration = 10, num_run = 5\<rparr> \<and>
   (5::int) + 5 \<noteq> 0 \<and>
   (\<exists>dict'. add_runtime_info [(''t'', \<lparr>duration = 10, num_run = 5\<rparr>)] ''t'' 20 5 = Inr dict' \<and>
      map_of dict' ''t'' = Some \<lparr>duration = 15, num_run = 10\<rparr>) \<and>
   map_of ([] :: runtime_dict) ''t'' = None \<and>
   (\<exists>dict'. add_runtime_info [] ''t'' 10 5 = Inr dict' \<and>
      map_of dict' ''t'' = Some \<lparr>duration = 10, num_run = 5\<rparr>)"
proof -
  let ?i = "\<lparr>duration = 10, num_run = 5\<rparr>"
  let ?d = "[(''t'', ?i)]"
  have h1: "map_of ?d ''t'' = Some ?i \<and> num_run ?i + 5 \<noteq> 0" by simp
  have h2: "map_of ([] :: runtime_dict) ''t'' = None" by simp
  from merge_is_weighted_average[of ?d "''t''" ?i 5 20, THEN conjunct1, rule_format, OF h1]
  have c1: "\<exists>dict'. add_runtime_info ?d ''t'' 20 5 = Inr dict' \<and>
      map_of dict' ''t'' = Some \<lparr>duration = 15, num_run = 10\<rparr>"
    by auto
  from merge_is_weighted_average[of "[]" "''t''" _ 5 10, THEN conjunct2, THEN conjunct1,
          rule_format, OF h2]
  have c2: "\<exists>dict'. add_runtime_info [] ''t'' 10 5 = Inr dict' \<and>
      map_of dict' ''t'' = Some ?i"
    by auto
  from h1 h2 c1 c2 show ?thesis by simp
qed

section \<open>No division by zero\<close>

lemma add_runtime_info_positive:
  assumes "\<forall>p\<in>set runtime_dict. 1 \<le> num_run (snd p)" and "1 \<le> n"
  shows "\<exists>dict'. add_runtime_info runtime_dict test_name d n = Inr dict' \<and>
           (\<forall>p\<in>set dict'. 1 \<le> num_run (snd p))"
proof (cases "map_of runtime_dict test_name")
  case None
  then show ?thesis
    using assms by (auto simp: add_runtime_info_def dest!: set_update_cases)
next
  case (Some info)
  then have "(test_name, info) \<in> set runtime_dict" by (rule map_of_SomeD)
  with assms(1) have pos: "1 \<le> num_run info" by fastforce
  with assms(2) have nz: "num_run info + n \<noteq> 0" by simp
  show ?thesis
    unfolding add_runtime_info_merge[OF Some nz]
    using assms pos by (auto dest!: set_update_cases)
qed

lemma add_stats_positive:
  assumes "\<forall>p\<in>set (runtime_by_test self) \<union> set (hook_runtime_by_test self). 1 \<le> num_run (snd p)"
    and "1 \<le> doc_num_pass doc"
  shows "\<exists>self'. add_stats ops self doc = Inr self' \<and>
           (\<forall>p\<in>set (runtime_by_test self') \<union> set (hook_runtime_by_test self').
              1 \<le> num_run (snd p))"
proof (cases "is_resmoke_hook ops (normalize_test_file ops (doc_test_file doc))")
  case True
  let ?f = "normalize_test_file ops (doc_test_file doc)"
  from assms(1) have h: "\<forall>p\<in>set (hook_runtime_by_test self). 1 \<le> num_run (snd p)"
    and t: "\<forall>p\<in>set (runtime_by_test self). 1 \<le> num_run (snd p)" by blast+
  from add_runtime_info_positive[OF h assms(2),
         of "fst (split_test_hook_name ops ?f)" "doc_avg_duration_pass doc"]
  obtain dict' where
    d: "add_runtime_info (hook_runtime_by_test self) (fst (split_test_hook_name ops ?f))
          (doc_avg_duration_pass doc) (doc_num_pass doc) = Inr dict'"
       "\<forall>p\<in>set dict'. 1 \<le> num_run (snd p)"
    by blast
  have "add_stats ops self doc = Inr (self\<lparr>hook_runtime_by_test := dict'\<rparr>)"
    using True d(1) by (simp add: add_stats_def add_test_hook_stats_def Let_def)
  moreover have "\<forall>p\<in>set (runtime_by_test (self\<lparr>hook_runtime_by_test := dict'\<rparr>)) \<union>
                     set (hook_runtime_by_test (self\<lparr>hook_runtime_by_test := dict'\<rparr>)).
                   1 \<le> num_run (snd p)"
    using t d(2) by auto
  ultimately show ?thesis by blast
next
  case False
  let ?f = "normalize_test_file ops (doc_test_file doc)"
  from assms(1) have h: "\<forall>p\<in>set (hook_runtime_by_test self). 1 \<le> num_run (snd p)"
    and t: "\<forall>p\<in>set (runtime_by_test self). 1 \<le> num_run (snd p)" by blast+
  from add_runtime_info_positive[OF t assms(2), of ?f "doc_avg_duration_pass doc"]
  obtain dict' where
    d: "add_runtime_info (runtime_by_test self) ?f
          (doc_avg_duration_pass doc) (doc_num_pass doc) = Inr dict'"
       "\<forall>p\<in>set dict'. 1 \<le> num_run (snd p)"
    by blast
  have "add_stats ops self doc = Inr (self\<lparr>runtime_by_test := dict'\<rparr>)"
    using False d(1) by (simp add: add_stats_def add_test_stats_def Let_def)
  moreover have "\<forall>p\<in>set (runtime_by_test (self\<lparr>runtime_by_test := dict'\<rparr>)) \<union>
                     set (hook_runtime_by_test (self\<lparr>runtime_by_test := dict'\<rparr>)).
                   1 \<le> num_run (snd p)"
    using h d(2) by auto
  ultimately show ?thesis by blast
qed

lemma add_all_stats_positive:
  assumes "\<forall>p\<in>set (runtime_by_test self) \<union> set (hook_runtime_by_test self). 1 \<le> num_run (snd p)"
    and "\<forall>doc\<in>set docs. 1 \<le> doc_num_pass doc"
  shows "\<exists>self'. add_all_stats ops self docs = Inr self' \<and>
           (\<forall>p\<in>set (runtime_by_test self') \<union> set (hook_runtime_by_test self').
              1 \<le> num_run (snd p))"
  using assms
proof (induction docs arbitrary: self)
  case Nil
  then show ?case by simp
next
  case (Cons doc docs)
  from Cons.prems(2) have d: "1 \<le> doc_num_pass doc" by simp
  from add_stats_positive[OF Cons.prems(1) d, of ops] obtain s1 where
    s1: "add_stats ops self doc = Inr s1"
        "\<forall>p\<in>set (runtime_by_test s1) \<union> set (hook_runtime_by_test s1). 1 \<le> num_run (snd p)"
    by blast
  from Cons.IH[OF s1(2)] Cons.prems(2) s1(1) show ?case by simp
qed

text \<open>
  Claim C9. If every document has \<^verbatim>\<open>num_pass\<close> of at least 1, building \<^verbatim>\<open>TestStats\<close> raises
  nothing, and whenever a document is merged, after any number of documents before it,
  the divisor of \<^verbatim>\<open>_average\<close> is positive for every entry of the two dictionaries that the
  merge can read: \<^verbatim>\<open>_average\<close> returns the weighted average.
\<close>

theorem average_never_divides_by_zero:
  assumes "\<forall>doc\<in>set docs. 1 \<le> doc_num_pass doc"
  shows "(\<exists>self. TestStats_init ops docs = Inr self) \<and>
         (\<forall>before doc after self info.
            docs = before @ doc # after \<and> TestStats_init ops before = Inr self \<and>
            info \<in> snd ` (set (runtime_by_test self) \<union> set (hook_runtime_by_test self)) \<longrightarrow>
              0 < num_run info + doc_num_pass doc \<and>
              average (duration info) (num_run info) (doc_avg_duration_pass doc)
                  (doc_num_pass doc) =
                Inr ((duration info * of_int (num_run info) +
                      doc_avg_duration_pass doc * of_int (doc_num_pass doc))
                     / of_int (num_run info + doc_num_pass doc)))"
proof (intro conjI allI impI)
  have e: "\<forall>p\<in>set (runtime_by_test \<lparr>runtime_by_test = [], hook_runtime_by_test = []\<rparr>) \<union>
              set (hook_runtime_by_test \<lparr>runtime_by_test = [], hook_runtime_by_test = []\<rparr>).
            1 \<le> num_run (snd p)"
    by simp
  from add_all_stats_positive[OF e assms, of ops]
  show "\<exists>self. TestStats_init ops docs = Inr self"
    unfolding TestStats_init_def by blast
  fix before doc after self info
  assume h: "docs = before @ doc # after \<and> TestStats_init ops before = Inr self \<and>
            info \<in> snd ` (set (runtime_by_test self) \<union> set (hook_runtime_by_test self))"
  then have b: "\<forall>doc\<in>set before. 1 \<le> doc_num_pass doc" and d: "1 \<le> doc_num_pass doc"
    using assms by auto
  from add_all_stats_positive[OF e b, of ops] h
  have "1 \<le> num_run info" unfolding TestStats_init_def by auto
  with d have pos: "0 < num_run info + doc_num_pass doc" by simp
  then show "0 < num_run info + doc_num_pass doc" .
  from pos show "average (duration info) (num_run info) (doc_avg_duration_pass doc)
                  (doc_num_pass doc) =
                Inr ((duration info * of_int (num_run info) +
                      doc_avg_duration_pass doc * of_int (doc_num_pass doc))
                     / of_int (num_run info + doc_num_pass doc))"
    by (simp add: average_def)
qed

text \<open>A document of one run, then one of three runs for the same test.\<close>

theorem average_never_divides_by_zero_witness:
  "list_all (\<lambda>doc. 1 \<le> doc_num_pass doc)
     [\<lparr>doc_test_file = ''jstests/a.js'', doc_avg_duration_pass = 10, doc_num_pass = 1\<rparr>,
      \<lparr>doc_test_file = ''jstests/a.js'', doc_avg_duration_pass = 20, doc_num_pass = 3\<rparr>] \<and>
   (\<exists>self. TestStats_init sample_testname
       [\<lparr>doc_test_file = ''jstests/a.js'', doc_avg_duration_pass = 10, doc_num_pass = 1\<rparr>,
        \<lparr>doc_test_file = ''jstests/a.js'', doc_avg_duration_pass = 20, doc_num_pass = 3\<rparr>] =
      Inr self) \<and>
   TestStats_init sample_testname
       [\<lparr>doc_test_file = ''jstests/a.js'', doc_avg_duration_pass = 10, doc_num_pass = 1\<rparr>] =
     Inr \<lparr>runtime_by_test = [(''jstests/a.js'', \<lparr>duration = 10, num_run = 1\<rparr>)],
          hook_runtime_by_test = []\<rparr> \<and>
   average 10 1 20 3 = Inr ((10 * of_int 1 + 20 * of_int 3) / of_int (1 + 3))"
proof -
  let ?d1 = "\<lparr>doc_test_file = ''jstests/a.js'', doc_avg_duration_pass = 10, doc_num_pass = 1\<rparr>"
  let ?d2 = "\<lparr>doc_test_file = ''jstests/a.js'', doc_avg_duration_pass = 20, doc_num_pass = 3\<rparr>"
  let ?i = "\<lparr>duration = 10, num_run = 1\<rparr>"
  let ?s1 = "\<lparr>runtime_by_test = [(''jstests/a.js'', ?i)], hook_runtime_by_test = []\<rparr>"
  have h: "\<forall>doc\<in>set [?d1, ?d2]. 1 \<le> doc_num_pass doc" by simp
  note inst = average_never_divides_by_zero[OF h, of sample_testname]
  have s1: "TestStats_init sample_testname [?d1] = Inr ?s1"
    by (simp add: TestStats_init_def add_stats_def add_test_stats_def add_runtime_info_def
          sample_testname_def)
  have pre: "[?d1, ?d2] = [?d1] @ ?d2 # [] \<and> TestStats_init sample_testname [?d1] = Inr ?s1 \<and>
             ?i \<in> snd ` (set (runtime_by_test ?s1) \<union> set (hook_runtime_by_test ?s1))"
    using s1 by simp
  from inst[THEN conjunct2, rule_format, OF pre]
  have av: "average 10 1 20 3 = Inr ((10 * of_int 1 + 20 * of_int 3) / of_int (1 + 3))"
    by simp
  have h': "list_all (\<lambda>doc. 1 \<le> doc_num_pass doc) [?d1, ?d2]" by simp
  from inst[THEN conjunct1] h' s1 av show ?thesis by blast
qed

text \<open>Without the precondition the division can raise: two documents with no passing run.\<close>

lemma zero_counts_raise:
  "TestStats_init sample_testname
       [\<lparr>doc_test_file = ''jstests/a.js'', doc_avg_duration_pass = 10, doc_num_pass = 0\<rparr>,
        \<lparr>doc_test_file = ''jstests/a.js'', doc_avg_duration_pass = 20, doc_num_pass = 0\<rparr>] =
     Inl ZeroDivisionError"
    by (simp add: TestStats_init_def add_stats_def add_test_stats_def add_runtime_info_def
          average_def sample_testname_def)

section \<open>The order of the test runtimes\<close>

lemma first_occurrence_snoc:
  "rev (remdups (rev (xs @ [k]))) =
     (if k \<in> set xs then rev (remdups (rev xs)) else rev (remdups (rev xs)) @ [k])"
  by simp

lemma add_runtime_info_keys:
  assumes "add_runtime_info runtime_dict k d n = Inr dict'"
  shows "map fst dict' =
           (if k \<in> set (map fst runtime_dict) then map fst runtime_dict
            else map fst runtime_dict @ [k])"
  using assms
  by (auto simp: add_runtime_info_def map_fst_update rev_image_eqI
           split: option.splits sum.splits)

lemma add_stats_keys:
  assumes "add_stats ops self doc = Inr self'"
  shows "map fst (runtime_by_test self') =
           (if is_resmoke_hook ops (normalize_test_file ops (doc_test_file doc))
            then map fst (runtime_by_test self)
            else if normalize_test_file ops (doc_test_file doc) \<in> set (map fst (runtime_by_test self))
            then map fst (runtime_by_test self)
            else map fst (runtime_by_test self) @ [normalize_test_file ops (doc_test_file doc)])"
proof (cases "is_resmoke_hook ops (normalize_test_file ops (doc_test_file doc))")
  case True
  with assms show ?thesis
    by (auto simp: add_stats_def add_test_hook_stats_def Let_def split: sum.splits)
next
  case False
  with assms obtain dict' where
    d: "add_runtime_info (runtime_by_test self) (normalize_test_file ops (doc_test_file doc))
          (doc_avg_duration_pass doc) (doc_num_pass doc) = Inr dict'"
    and s: "self' = self\<lparr>runtime_by_test := dict'\<rparr>"
    by (auto simp: add_stats_def add_test_stats_def Let_def split: sum.splits)
  from add_runtime_info_keys[OF d] False s show ?thesis by simp
qed

lemma add_all_stats_keys:
  assumes "add_all_stats ops self docs = Inr self'"
    and "map fst (runtime_by_test self) = rev (remdups (rev seen))"
  shows "map fst (runtime_by_test self') =
           rev (remdups (rev (seen @ ingested_test_files ops docs)))"
  using assms
proof (induction docs arbitrary: self seen)
  case Nil
  then show ?case by (simp add: ingested_test_files_def)
next
  case (Cons doc docs)
  let ?f = "normalize_test_file ops (doc_test_file doc)"
  from Cons.prems(1) obtain s1 where
    s1: "add_stats ops self doc = Inr s1" and rest: "add_all_stats ops s1 docs = Inr self'"
    by (auto split: sum.splits)
  show ?case
  proof (cases "is_resmoke_hook ops ?f")
    case True
    with add_stats_keys[OF s1] Cons.prems(2)
    have "map fst (runtime_by_test s1) = rev (remdups (rev seen))" by simp
    from Cons.IH[OF rest this] True show ?thesis
      by (simp add: ingested_test_files_def)
  next
    case False
    have "set (rev (remdups (rev seen))) = set seen" by simp
    with add_stats_keys[OF s1] Cons.prems(2) False
    have "map fst (runtime_by_test s1) = rev (remdups (rev (seen @ [?f])))"
      unfolding first_occurrence_snoc by auto
    from Cons.IH[OF rest this] False show ?thesis
      by (simp add: ingested_test_files_def)
  qed
qed

lemma TestStats_init_keys:
  assumes "TestStats_init ops docs = Inr self"
  shows "map fst (runtime_by_test self) = rev (remdups (rev (ingested_test_files ops docs)))"
  using add_all_stats_keys[of ops _ docs self "[]"] assms
  by (simp add: TestStats_init_def)

lemma set_dict_items: "set (dict_items items_order d) = set d"
  by (simp add: dict_items_def)

lemma mset_dict_items: "mset (dict_items items_order d) = mset d"
  by (simp add: dict_items_def)

lemma dict_items_insertion_order: "dict_items insertion_order d = d"
  by (simp add: dict_items_def insertion_order_def sort_key_const)

lemma map_fst_unsorted:
  "map fst (unsorted_tests_runtimes ops items_order self) =
     map fst (dict_items items_order (runtime_by_test self))"
  by (simp add: unsorted_tests_runtimes_def split_def comp_def)

lemma set_map_fst_unsorted:
  "set (map fst (unsorted_tests_runtimes ops items_order self)) =
     set (map fst (runtime_by_test self))"
  unfolding map_fst_unsorted by (simp add: set_dict_items)

lemma sorted_desc_sort_key:
  "sorted_wrt (\<lambda>a b. b \<le> a) (map snd (sort_key (\<lambda>x. - snd x) (xs :: ('a \<times> real) list)))"
proof -
  have "sorted (map (\<lambda>x. - snd x) (sort_key (\<lambda>x. - snd x) xs))"
    by (rule sorted_sort_key)
  then show ?thesis
    by (simp add: sorted_wrt_map)
qed

lemma slot_a_js: "py27_small_dict_order keys ''jstests/a.js'' = 3"
  by (simp add: py27_small_dict_order_def py27_string_hash_def)

lemma slot_b_js: "py27_small_dict_order keys ''jstests/b.js'' = 6"
  by (simp add: py27_small_dict_order_def py27_string_hash_def)

lemma slot_c_js: "py27_small_dict_order keys ''jstests/c.js'' = 5"
  by (simp add: py27_small_dict_order_def py27_string_hash_def)

text \<open>
  Claim C6, as the source has it. For any statistics and any order in which the
  dictionary lists its items, the list of \<^verbatim>\<open>get_tests_runtimes\<close> has its durations in
  descending order, and the entries of any one duration are in the order in which the
  dictionary lists them (the sort is stable). For the statistics built from documents the
  list holds every ingested test file once. The order of the dictionary is the order in
  which the test files were first met only for a dictionary that lists its items in
  insertion order.
\<close>

theorem get_tests_runtimes_descending_stable_in_items_order:
  "sorted_wrt (\<lambda>a b. b \<le> a) (map snd (get_tests_runtimes ops items_order self)) \<and>
   (\<forall>d. filter (\<lambda>x. snd x = d) (get_tests_runtimes ops items_order self) =
        filter (\<lambda>x. snd x = d) (unsorted_tests_runtimes ops items_order self)) \<and>
   map fst (unsorted_tests_runtimes ops items_order self) =
     map fst (dict_items items_order (runtime_by_test self)) \<and>
   (TestStats_init ops docs = Inr self \<longrightarrow>
      mset (map fst (get_tests_runtimes ops items_order self)) =
        mset (rev (remdups (rev (ingested_test_files ops docs)))) \<and>
      map fst (unsorted_tests_runtimes ops insertion_order self) =
        rev (remdups (rev (ingested_test_files ops docs))))"
proof (intro impI conjI allI)
  show "sorted_wrt (\<lambda>a b. b \<le> a) (map snd (get_tests_runtimes ops items_order self))"
    unfolding get_tests_runtimes_def by (rule sorted_desc_sort_key)
  show "map fst (unsorted_tests_runtimes ops items_order self) =
     map fst (dict_items items_order (runtime_by_test self))"
    by (rule map_fst_unsorted)
  fix d
  have "filter (\<lambda>x. - snd x = - d)
          (sort_key (\<lambda>x. - snd x) (unsorted_tests_runtimes ops items_order self)) =
        filter (\<lambda>x. - snd x = - d) (unsorted_tests_runtimes ops items_order self)"
    by (rule sort_key_stable)
  then show "filter (\<lambda>x. snd x = d) (get_tests_runtimes ops items_order self) =
          filter (\<lambda>x. snd x = d) (unsorted_tests_runtimes ops items_order self)"
    by (simp add: get_tests_runtimes_def)
next
  assume init: "TestStats_init ops docs = Inr self"
  have "mset (map fst (get_tests_runtimes ops items_order self)) =
          mset (map fst (unsorted_tests_runtimes ops items_order self))"
    by (simp add: get_tests_runtimes_def)
  also have "\<dots> = mset (map fst (runtime_by_test self))"
    unfolding map_fst_unsorted by (simp add: mset_dict_items)
  finally show "mset (map fst (get_tests_runtimes ops items_order self)) =
        mset (rev (remdups (rev (ingested_test_files ops docs))))"
    by (simp only: TestStats_init_keys[OF init])
  show "map fst (unsorted_tests_runtimes ops insertion_order self) =
        rev (remdups (rev (ingested_test_files ops docs)))"
    by (simp add: map_fst_unsorted dict_items_insertion_order TestStats_init_keys[OF init])
qed

text \<open>
  Three tests under Python 2.7: c.js and b.js have the same duration; the dictionary lists
  a.js, c.js, b.js (slots 3, 5, 6).
\<close>

theorem get_tests_runtimes_descending_stable_in_items_order_witness:
  "TestStats_init sample_testname
      [\<lparr>doc_test_file = ''jstests/c.js'', doc_avg_duration_pass = 5, doc_num_pass = 1\<rparr>,
       \<lparr>doc_test_file = ''jstests/a.js'', doc_avg_duration_pass = 9, doc_num_pass = 1\<rparr>,
       \<lparr>doc_test_file = ''jstests/b.js'', doc_avg_duration_pass = 5, doc_num_pass = 1\<rparr>] =
     Inr \<lparr>runtime_by_test =
            [(''jstests/c.js'', \<lparr>duration = 5, num_run = 1\<rparr>),
             (''jstests/a.js'', \<lparr>duration = 9, num_run = 1\<rparr>),
             (''jstests/b.js'', \<lparr>duration = 5, num_run = 1\<rparr>)],
          hook_runtime_by_test = []\<rparr> \<and>
   get_tests_runtimes sample_testname py27_small_dict_order
      \<lparr>runtime_by_test =
            [(''jstests/c.js'', \<lparr>duration = 5, num_run = 1\<rparr>),
             (''jstests/a.js'', \<lparr>duration = 9, num_run = 1\<rparr>),
             (''jstests/b.js'', \<lparr>duration = 5, num_run = 1\<rparr>)],
          hook_runtime_by_test = []\<rparr> =
     [(''jstests/a.js'', 9), (''jstests/c.js'', 5), (''jstests/b.js'', 5)] \<and>
   sorted_wrt (\<lambda>a b. b \<le> a)
     (map snd (get_tests_runtimes sample_testname py27_small_dict_order
        \<lparr>runtime_by_test =
            [(''jstests/c.js'', \<lparr>duration = 5, num_run = 1\<rparr>),
             (''jstests/a.js'', \<lparr>duration = 9, num_run = 1\<rparr>),
             (''jstests/b.js'', \<lparr>duration = 5, num_run = 1\<rparr>)],
          hook_runtime_by_test = []\<rparr>)) \<and>
   mset (map fst (get_tests_runtimes sample_testname py27_small_dict_order
        \<lparr>runtime_by_test =
            [(''jstests/c.js'', \<lparr>duration = 5, num_run = 1\<rparr>),
             (''jstests/a.js'', \<lparr>duration = 9, num_run = 1\<rparr>),
             (''jstests/b.js'', \<lparr>duration = 5, num_run = 1\<rparr>)],
          hook_runtime_by_test = []\<rparr>)) =
     mset [''jstests/c.js'', ''jstests/a.js'', ''jstests/b.js'']"
proof -
  let ?docs = "[\<lparr>doc_test_file = ''jstests/c.js'', doc_avg_duration_pass = 5, doc_num_pass = 1\<rparr>,
       \<lparr>doc_test_file = ''jstests/a.js'', doc_avg_duration_pass = 9, doc_num_pass = 1\<rparr>,
       \<lparr>doc_test_file = ''jstests/b.js'', doc_avg_duration_pass = 5, doc_num_pass = 1\<rparr>]"
  let ?st = "\<lparr>runtime_by_test =
            [(''jstests/c.js'', \<lparr>duration = 5, num_run = 1\<rparr>),
             (''jstests/a.js'', \<lparr>duration = 9, num_run = 1\<rparr>),
             (''jstests/b.js'', \<lparr>duration = 5, num_run = 1\<rparr>)],
          hook_runtime_by_test = []\<rparr>"
  have init: "TestStats_init sample_testname ?docs = Inr ?st"
    by (simp add: TestStats_init_def add_stats_def add_test_stats_def add_runtime_info_def
          sample_testname_def)
  have out: "get_tests_runtimes sample_testname py27_small_dict_order ?st =
     [(''jstests/a.js'', 9), (''jstests/c.js'', 5), (''jstests/b.js'', 5)]"
    by (simp add: get_tests_runtimes_def unsorted_tests_runtimes_def dict_items_def
          slot_a_js slot_b_js slot_c_js)
  have names: "rev (remdups (rev (ingested_test_files sample_testname ?docs))) =
                 [''jstests/c.js'', ''jstests/a.js'', ''jstests/b.js'']"
    by (simp add: ingested_test_files_def sample_testname_def)
  note inst = get_tests_runtimes_descending_stable_in_items_order
                [where ops = sample_testname and items_order = py27_small_dict_order
                   and self = "?st" and docs = "?docs"]
  from inst have
    srt: "sorted_wrt (\<lambda>a b. b \<le> a)
            (map snd (get_tests_runtimes sample_testname py27_small_dict_order ?st))"
    by blast
  from inst init have
    "mset (map fst (get_tests_runtimes sample_testname py27_small_dict_order ?st)) =
       mset (rev (remdups (rev (ingested_test_files sample_testname ?docs))))"
    by blast
  then have ms: "mset (map fst (get_tests_runtimes sample_testname py27_small_dict_order ?st)) =
       mset [''jstests/c.js'', ''jstests/a.js'', ''jstests/b.js'']"
    unfolding names .
  from init out srt ms show ?thesis by blast
qed

text \<open>
  The claim as the specification states it fails under Python 2.7: b.js is met before
  c.js, both have the same duration, and the dictionary lists c.js (slot 5) before b.js
  (slot 6), so c.js comes out first.
\<close>

theorem equal_durations_not_in_encounter_order_counterexample:
  "TestStats_init sample_testname
      [\<lparr>doc_test_file = ''jstests/b.js'', doc_avg_duration_pass = 5, doc_num_pass = 1\<rparr>,
       \<lparr>doc_test_file = ''jstests/c.js'', doc_avg_duration_pass = 5, doc_num_pass = 1\<rparr>] =
     Inr \<lparr>runtime_by_test =
            [(''jstests/b.js'', \<lparr>duration = 5, num_run = 1\<rparr>),
             (''jstests/c.js'', \<lparr>duration = 5, num_run = 1\<rparr>)],
          hook_runtime_by_test = []\<rparr> \<and>
   rev (remdups (rev (ingested_test_files sample_testname
      [\<lparr>doc_test_file = ''jstests/b.js'', doc_avg_duration_pass = 5, doc_num_pass = 1\<rparr>,
       \<lparr>doc_test_file = ''jstests/c.js'', doc_avg_duration_pass = 5, doc_num_pass = 1\<rparr>]))) =
     [''jstests/b.js'', ''jstests/c.js''] \<and>
   py27_small_dict_order [''jstests/b.js'', ''jstests/c.js''] ''jstests/b.js'' = 6 \<and>
   py27_small_dict_order [''jstests/b.js'', ''jstests/c.js''] ''jstests/c.js'' = 5 \<and>
   get_tests_runtimes sample_testname py27_small_dict_order
      \<lparr>runtime_by_test =
            [(''jstests/b.js'', \<lparr>duration = 5, num_run = 1\<rparr>),
             (''jstests/c.js'', \<lparr>duration = 5, num_run = 1\<rparr>)],
          hook_runtime_by_test = []\<rparr> =
     [(''jstests/c.js'', 5), (''jstests/b.js'', 5)] \<and>
   map fst (get_tests_runtimes sample_testname py27_small_dict_order
      \<lparr>runtime_by_test =
            [(''jstests/b.js'', \<lparr>duration = 5, num_run = 1\<rparr>),
             (''jstests/c.js'', \<lparr>duration = 5, num_run = 1\<rparr>)],
          hook_runtime_by_test = []\<rparr>) \<noteq>
     rev (remdups (rev (ingested_test_files sample_testname
      [\<lparr>doc_test_file = ''jstests/b.js'', doc_avg_duration_pass = 5, doc_num_pass = 1\<rparr>,
       \<lparr>doc_test_file = ''jstests/c.js'', doc_avg_duration_pass = 5, doc_num_pass = 1\<rparr>])))"
  by (simp add: TestStats_init_def add_stats_def add_test_stats_def add_runtime_info_def
        sample_testname_def ingested_test_files_def get_tests_runtimes_def
        unsorted_tests_runtimes_def dict_items_def slot_b_js slot_c_js)

section \<open>Hooks\<close>

lemma TestStats_init_distinct:
  assumes "TestStats_init ops docs = Inr self"
  shows "distinct (map fst (runtime_by_test self))"
  unfolding TestStats_init_keys[OF assms] by simp

lemma TestStats_init_no_hook:
  assumes "TestStats_init ops docs = Inr self" and "f \<in> set (map fst (runtime_by_test self))"
  shows "\<not> is_resmoke_hook ops f"
  using assms(2) unfolding TestStats_init_keys[OF assms(1)]
  by (simp add: ingested_test_files_def)

lemma set_get_tests_runtimes:
  "set (get_tests_runtimes ops items_order self) = set (unsorted_tests_runtimes ops items_order self)"
  by (simp add: get_tests_runtimes_def)

text \<open>
  Claim C5. In the list of \<^verbatim>\<open>get_tests_runtimes\<close> no entry is the name of a hook, and a test
  file of the statistics has exactly one duration there: its own averaged duration, plus
  the averaged duration of the hook entry under its short name when there is one (a sum,
  no average of the two). A test of 5 s with a hook of 2 s is listed with 7 s.
\<close>

theorem hook_duration_is_added:
  "(TestStats_init ops docs = Inr self \<longrightarrow>
      (\<forall>p\<in>set (get_tests_runtimes ops items_order self). \<not> is_resmoke_hook ops (fst p)) \<and>
      (\<forall>test_file info.
         map_of (runtime_by_test self) test_file = Some info \<longrightarrow>
           (\<forall>d. (test_file, d) \<in> set (get_tests_runtimes ops items_order self) \<longleftrightarrow>
                d = (case map_of (hook_runtime_by_test self)
                            (get_short_name_from_test_file ops test_file) of
                       None \<Rightarrow> duration info
                     | Some hook_info \<Rightarrow> duration info + duration hook_info)))) \<and>
   TestStats_init sample_testname
      [\<lparr>doc_test_file = ''jstests/core/foo.js'', doc_avg_duration_pass = 5, doc_num_pass = 3\<rparr>,
       \<lparr>doc_test_file = ''foo:CheckReplDBHash'', doc_avg_duration_pass = 2, doc_num_pass = 3\<rparr>] =
     Inr \<lparr>runtime_by_test = [(''jstests/core/foo.js'', \<lparr>duration = 5, num_run = 3\<rparr>)],
          hook_runtime_by_test = [(''foo'', \<lparr>duration = 2, num_run = 3\<rparr>)]\<rparr> \<and>
   get_tests_runtimes sample_testname items_order
      \<lparr>runtime_by_test = [(''jstests/core/foo.js'', \<lparr>duration = 5, num_run = 3\<rparr>)],
       hook_runtime_by_test = [(''foo'', \<lparr>duration = 2, num_run = 3\<rparr>)]\<rparr> =
     [(''jstests/core/foo.js'', 7)]"
proof (intro conjI impI ballI allI)
  fix p
  assume init: "TestStats_init ops docs = Inr self"
    and "p \<in> set (get_tests_runtimes ops items_order self)"
  then have "fst p \<in> set (map fst (unsorted_tests_runtimes ops items_order self))"
    by (simp add: set_get_tests_runtimes)
  then have "fst p \<in> set (map fst (runtime_by_test self))"
    by (simp only: set_map_fst_unsorted)
  with init show "\<not> is_resmoke_hook ops (fst p)" by (rule TestStats_init_no_hook)
next
  fix test_file info d
  assume init: "TestStats_init ops docs = Inr self"
    and look: "map_of (runtime_by_test self) test_file = Some info"
  let ?c = "\<lambda>f i. (case map_of (hook_runtime_by_test self)
                            (get_short_name_from_test_file ops f) of
                       None \<Rightarrow> duration i
                     | Some hook_info \<Rightarrow> duration i + duration hook_info)"
  have dist: "distinct (map fst (runtime_by_test self))"
    by (rule TestStats_init_distinct[OF init])
  have "(test_file, d) \<in> set (get_tests_runtimes ops items_order self) \<longleftrightarrow>
          (\<exists>i. (test_file, i) \<in> set (runtime_by_test self) \<and> d = ?c test_file i)"
    by (auto simp: set_get_tests_runtimes unsorted_tests_runtimes_def set_dict_items)
  also have "\<dots> \<longleftrightarrow> d = ?c test_file info"
  proof -
    have "(test_file, i) \<in> set (runtime_by_test self) \<longleftrightarrow> i = info" for i
    proof -
      have "(test_file, i) \<in> set (runtime_by_test self) \<longleftrightarrow>
              map_of (runtime_by_test self) test_file = Some i"
        by (rule map_of_eq_Some_iff[OF dist, symmetric])
      also have "\<dots> \<longleftrightarrow> i = info" unfolding look by auto
      finally show ?thesis .
    qed
    then show ?thesis by simp
  qed
  finally show "(test_file, d) \<in> set (get_tests_runtimes ops items_order self) \<longleftrightarrow> d = ?c test_file info" .
next
  show "TestStats_init sample_testname
      [\<lparr>doc_test_file = ''jstests/core/foo.js'', doc_avg_duration_pass = 5, doc_num_pass = 3\<rparr>,
       \<lparr>doc_test_file = ''foo:CheckReplDBHash'', doc_avg_duration_pass = 2, doc_num_pass = 3\<rparr>] =
     Inr \<lparr>runtime_by_test = [(''jstests/core/foo.js'', \<lparr>duration = 5, num_run = 3\<rparr>)],
          hook_runtime_by_test = [(''foo'', \<lparr>duration = 2, num_run = 3\<rparr>)]\<rparr>"
    by (simp add: TestStats_init_def add_stats_def add_test_stats_def add_test_hook_stats_def
          add_runtime_info_def sample_testname_def sample_split_def)
next
  show "get_tests_runtimes sample_testname items_order
      \<lparr>runtime_by_test = [(''jstests/core/foo.js'', \<lparr>duration = 5, num_run = 3\<rparr>)],
       hook_runtime_by_test = [(''foo'', \<lparr>duration = 2, num_run = 3\<rparr>)]\<rparr> =
     [(''jstests/core/foo.js'', 7)]"
    by (simp add: get_tests_runtimes_def unsorted_tests_runtimes_def dict_items_def
          sample_testname_def sample_short_name_def)
qed

text \<open>The general part of the theorem at the statistics of its example.\<close>

theorem hook_duration_is_added_witness:
  "TestStats_init sample_testname
      [\<lparr>doc_test_file = ''jstests/core/foo.js'', doc_avg_duration_pass = 5, doc_num_pass = 3\<rparr>,
       \<lparr>doc_test_file = ''foo:CheckReplDBHash'', doc_avg_duration_pass = 2, doc_num_pass = 3\<rparr>] =
     Inr \<lparr>runtime_by_test = [(''jstests/core/foo.js'', \<lparr>duration = 5, num_run = 3\<rparr>)],
          hook_runtime_by_test = [(''foo'', \<lparr>duration = 2, num_run = 3\<rparr>)]\<rparr> \<and>
   list_all (\<lambda>p. \<not> is_resmoke_hook sample_testname (fst p))
     (get_tests_runtimes sample_testname py27_small_dict_order
        \<lparr>runtime_by_test = [(''jstests/core/foo.js'', \<lparr>duration = 5, num_run = 3\<rparr>)],
         hook_runtime_by_test = [(''foo'', \<lparr>duration = 2, num_run = 3\<rparr>)]\<rparr>) \<and>
   (''jstests/core/foo.js'', 7) \<in> set (get_tests_runtimes sample_testname py27_small_dict_order
        \<lparr>runtime_by_test = [(''jstests/core/foo.js'', \<lparr>duration = 5, num_run = 3\<rparr>)],
         hook_runtime_by_test = [(''foo'', \<lparr>duration = 2, num_run = 3\<rparr>)]\<rparr>)"
proof -
  let ?docs = "[\<lparr>doc_test_file = ''jstests/core/foo.js'', doc_avg_duration_pass = 5, doc_num_pass = 3\<rparr>,
       \<lparr>doc_test_file = ''foo:CheckReplDBHash'', doc_avg_duration_pass = 2, doc_num_pass = 3\<rparr>]"
  let ?i = "\<lparr>duration = 5, num_run = 3\<rparr>"
  let ?st = "\<lparr>runtime_by_test = [(''jstests/core/foo.js'', ?i)],
          hook_runtime_by_test = [(''foo'', \<lparr>duration = 2, num_run = 3\<rparr>)]\<rparr>"
  note inst = hook_duration_is_added[where ops = sample_testname and docs = "?docs" and self = "?st"
                 and items_order = py27_small_dict_order]
  from inst have init: "TestStats_init sample_testname ?docs = Inr ?st" by blast
  from inst[THEN conjunct1, rule_format, OF init] have
    nh: "\<forall>p\<in>set (get_tests_runtimes sample_testname py27_small_dict_order ?st).
           \<not> is_resmoke_hook sample_testname (fst p)"
    and ad: "\<forall>test_file info.
         map_of (runtime_by_test ?st) test_file = Some info \<longrightarrow>
           (\<forall>d. (test_file, d) \<in> set (get_tests_runtimes sample_testname py27_small_dict_order ?st) \<longleftrightarrow>
                d = (case map_of (hook_runtime_by_test ?st)
                            (get_short_name_from_test_file sample_testname test_file) of
                       None \<Rightarrow> duration info
                     | Some hook_info \<Rightarrow> duration info + duration hook_info))"
    by blast+
  have look: "map_of (runtime_by_test ?st) ''jstests/core/foo.js'' = Some ?i" by simp
  have short: "get_short_name_from_test_file sample_testname ''jstests/core/foo.js'' = ''foo''"
    by (simp add: sample_testname_def sample_short_name_def)
  from ad[rule_format, OF look, of 7]
  have "(''jstests/core/foo.js'', 7) \<in> set (get_tests_runtimes sample_testname py27_small_dict_order ?st)"
    unfolding short by simp
  moreover from nh have "list_all (\<lambda>p. \<not> is_resmoke_hook sample_testname (fst p))
     (get_tests_runtimes sample_testname py27_small_dict_order ?st)"
    unfolding list_all_iff .
  ultimately show ?thesis using init by blast
qed

section \<open>Falling back when Evergreen is unavailable\<close>

lemma add_runtime_info_error:
  "add_runtime_info runtime_dict k d n = Inl e \<Longrightarrow> e = ZeroDivisionError"
  by (auto simp: add_runtime_info_def average_def split: option.splits sum.splits if_splits)

lemma add_stats_error:
  "add_stats ops self doc = Inl e \<Longrightarrow> e = ZeroDivisionError"
  by (auto simp: add_stats_def add_test_stats_def add_test_hook_stats_def Let_def
        split: sum.splits if_splits dest: add_runtime_info_error)

lemma add_all_stats_error:
  "add_all_stats ops self docs = Inl e \<Longrightarrow> e = ZeroDivisionError"
proof (induction docs arbitrary: self)
  case Nil
  then show ?case by simp
next
  case (Cons doc docs)
  then show ?case
    by (auto split: sum.splits dest: add_stats_error)
qed

lemma calculate_suites_from_evg_stats_error:
  assumes "calculate_suites_from_evg_stats ops items_order self data secs = Inl e"
  shows "e = ZeroDivisionError"
proof (cases "TestStats_init ops data")
  case (Inl e')
  with assms have "e' = e" by (simp add: calculate_suites_from_evg_stats_def)
  with Inl show ?thesis unfolding TestStats_init_def by (auto dest: add_all_stats_error)
next
  case (Inr st)
  from divide_tests_into_suites_mset[of "get_tests_runtimes ops items_order st" "of_int secs" "max_sub_suites self"]
  obtain suites where
    "divide_tests_into_suites (get_tests_runtimes ops items_order st) (of_int secs) (max_sub_suites self)
       = Inr suites"
    by blast
  with assms Inr show ?thesis
    by (simp add: calculate_suites_from_evg_stats_def Let_def)
qed

text \<open>
  Claim C8. \<^verbatim>\<open>calculate_suites\<close> returns the fallback partition when the fetch raised an
  HTTP error of status 503; every other exception of the fetch is raised again and no
  partition is returned; when the fetch succeeded the result is that of
  \<^verbatim>\<open>calculate_suites_from_evg_stats\<close> on the fetched documents.
\<close>

theorem calculate_suites_falls_back_on_503:
  "(fetched = Inl (HTTPError 503) \<longrightarrow>
      calculate_suites ops items_order self fetched =
        (case calculate_fallback_suites self of
           Inl e \<Rightarrow> Inl e
         | Inr suites \<Rightarrow> Inr (suites, self))) \<and>
   (\<forall>e. fetched = Inl e \<and> e \<noteq> HTTPError 503 \<longrightarrow> calculate_suites ops items_order self fetched = Inl e) \<and>
   (\<forall>evg_stats. fetched = Inr evg_stats \<longrightarrow>
      calculate_suites ops items_order self fetched =
        calculate_suites_from_evg_stats ops items_order self evg_stats (execution_time_minutes self * 60))"
proof (intro conjI impI allI)
  assume "fetched = Inl (HTTPError 503)"
  then show "calculate_suites ops items_order self fetched =
        (case calculate_fallback_suites self of
           Inl e \<Rightarrow> Inl e
         | Inr suites \<Rightarrow> Inr (suites, self))"
    by (simp add: calculate_suites_def SERVICE_UNAVAILABLE_def)
next
  fix e
  assume "fetched = Inl e \<and> e \<noteq> HTTPError 503"
  then show "calculate_suites ops items_order self fetched = Inl e"
    by (cases e) (simp_all add: calculate_suites_def SERVICE_UNAVAILABLE_def)
next
  fix evg_stats
  assume f: "fetched = Inr evg_stats"
  let ?r = "calculate_suites_from_evg_stats ops items_order self evg_stats (execution_time_minutes self * 60)"
  show "calculate_suites ops items_order self fetched = ?r"
  proof (cases ?r)
    case (Inl e)
    then have "e = ZeroDivisionError" by (rule calculate_suites_from_evg_stats_error)
    with Inl f show ?thesis by (simp add: calculate_suites_def)
  next
    case (Inr res)
    with f show ?thesis by (simp add: calculate_suites_def)
  qed
qed

text \<open>A 503, a 500 and a successful fetch of one document.\<close>

theorem calculate_suites_falls_back_on_503_witness:
  "(Inl (HTTPError 503) :: error + evg_doc list) = Inl (HTTPError 503) \<and>
   calculate_suites sample_testname py27_small_dict_order
      \<lparr>fallback_num_sub_suites = 2, max_sub_suites = None, execution_time_minutes = 60,
       suite_tests = [''a'', ''b'', ''c''], test_list = []\<rparr> (Inl (HTTPError 503)) =
     Inr ([\<lparr>tests = [''a'', ''c''], total_runtime = 0\<rparr>, \<lparr>tests = [''b''], total_runtime = 0\<rparr>],
          \<lparr>fallback_num_sub_suites = 2, max_sub_suites = None, execution_time_minutes = 60,
           suite_tests = [''a'', ''b'', ''c''], test_list = []\<rparr>) \<and>
   HTTPError 500 \<noteq> HTTPError 503 \<and>
   calculate_suites sample_testname py27_small_dict_order
      \<lparr>fallback_num_sub_suites = 2, max_sub_suites = None, execution_time_minutes = 60,
       suite_tests = [''a'', ''b'', ''c''], test_list = []\<rparr> (Inl (HTTPError 500)) =
     Inl (HTTPError 500) \<and>
   calculate_suites sample_testname py27_small_dict_order
      \<lparr>fallback_num_sub_suites = 2, max_sub_suites = None, execution_time_minutes = 60,
       suite_tests = [''a'', ''b'', ''c''], test_list = []\<rparr>
      (Inr [\<lparr>doc_test_file = ''jstests/a.js'', doc_avg_duration_pass = 5, doc_num_pass = 1\<rparr>]) =
     Inr ([\<lparr>tests = [''jstests/a.js''], total_runtime = 5\<rparr>],
          \<lparr>fallback_num_sub_suites = 2, max_sub_suites = None, execution_time_minutes = 60,
           suite_tests = [''a'', ''b'', ''c''], test_list = [''jstests/a.js'']\<rparr>)"
proof -
  let ?self = "\<lparr>fallback_num_sub_suites = 2, max_sub_suites = None, execution_time_minutes = 60,
       suite_tests = [''a'', ''b'', ''c''], test_list = []\<rparr>"
  let ?docs = "[\<lparr>doc_test_file = ''jstests/a.js'', doc_avg_duration_pass = 5, doc_num_pass = 1\<rparr>]"
  have fb: "calculate_fallback_suites ?self =
     Inr [\<lparr>tests = [''a'', ''c''], total_runtime = 0\<rparr>, \<lparr>tests = [''b''], total_runtime = 0\<rparr>]"
    by (simp add: calculate_fallback_suites_def partition_fallback_def list_tests_def
        py_index_def add_test_def Suite_init_def numeral_2_eq_2)
  have st: "calculate_suites_from_evg_stats sample_testname py27_small_dict_order ?self ?docs
              (execution_time_minutes ?self * 60) =
     Inr ([\<lparr>tests = [''jstests/a.js''], total_runtime = 5\<rparr>],
          ?self\<lparr>test_list := [''jstests/a.js'']\<rparr>)"
    by (simp add: calculate_suites_from_evg_stats_def TestStats_init_def add_stats_def
          add_test_stats_def add_runtime_info_def sample_testname_def get_tests_runtimes_def
          unsorted_tests_runtimes_def dict_items_def divide_tests_into_suites_def get_runtime_def
          get_test_count_def add_test_def Suite_init_def)
  have a: "(Inl (HTTPError 503) :: error + evg_doc list) = Inl (HTTPError 503)" by simp
  have b: "(Inl (HTTPError 500) :: error + evg_doc list) = Inl (HTTPError 500) \<and>
           HTTPError 500 \<noteq> HTTPError 503" by simp
  have c: "(Inr ?docs :: error + evg_doc list) = Inr ?docs" by simp
  from calculate_suites_falls_back_on_503[of "Inl (HTTPError 503)" sample_testname py27_small_dict_order ?self,
         THEN conjunct1, rule_format, OF a] fb
  have r1: "calculate_suites sample_testname py27_small_dict_order ?self (Inl (HTTPError 503)) =
     Inr ([\<lparr>tests = [''a'', ''c''], total_runtime = 0\<rparr>, \<lparr>tests = [''b''], total_runtime = 0\<rparr>],
          ?self)"
    by simp
  from calculate_suites_falls_back_on_503[of "Inl (HTTPError 500)" sample_testname py27_small_dict_order ?self,
         THEN conjunct2, THEN conjunct1, rule_format, OF b]
  have r2: "calculate_suites sample_testname py27_small_dict_order ?self (Inl (HTTPError 500)) = Inl (HTTPError 500)" .
  from calculate_suites_falls_back_on_503[of "Inr ?docs" sample_testname py27_small_dict_order ?self,
         THEN conjunct2, THEN conjunct2, rule_format, OF c] st
  have r3: "calculate_suites sample_testname py27_small_dict_order ?self (Inr ?docs) =
     Inr ([\<lparr>tests = [''jstests/a.js''], total_runtime = 5\<rparr>],
          ?self\<lparr>test_list := [''jstests/a.js'']\<rparr>)"
    by simp
  from r1 r2 r3 show ?thesis by simp
qed

end
